theory Spec2Isabelle
  imports Complex_Main "HOL-Library.Word" "HOL-Library.Monad_Syntax"
begin

section \<open>Machine types of the delay line\<close>

text \<open>
  The delay line of \<^verbatim>\<open>DelayLineView<T>\<close> is modelled for \<^verbatim>\<open>T = float\<close> on the
  32-bit target of the library: \<^verbatim>\<open>size_t\<close> is a 32-bit unsigned word whose arithmetic
  wraps around, \<^verbatim>\<open>int32_t\<close> is an integer that must stay in the signed 32-bit range
  (leaving the range is undefined behaviour, the value \<open>None\<close> here), and \<^verbatim>\<open>float\<close>
  is a real number: sample arithmetic is exact, rounding is not modelled. A member that
  has not been given a value holds no number; evaluating it is undefined as well.
\<close>

type_synonym size_t = "32 word"

definition INT32_MIN :: int where
  "INT32_MIN = - (2 ^ 31)"

definition INT32_MAX :: int where
  "INT32_MAX = 2 ^ 31 - 1"

text \<open>The result of an \<^verbatim>\<open>int32_t\<close> computation: defined only inside the range.\<close>

definition int32 :: "int \<Rightarrow> int option" where
  "int32 i = (if INT32_MIN \<le> i \<and> i \<le> INT32_MAX then Some i else None)"

text \<open>Conversion of a floating-point value to an integer discards the fractional part
  (truncation towards zero).\<close>

definition trunc :: "real \<Rightarrow> int" where
  "trunc x = (if 0 \<le> x then \<lfloor>x\<rfloor> else \<lceil>x\<rceil>)"

text \<open>\<^verbatim>\<open>static_cast<int32_t>(delay)\<close>: undefined when the truncated value does not fit.\<close>

definition float_to_int32 :: "real \<Rightarrow> int option" where
  "float_to_int32 x = int32 (trunc x)"

text \<open>\<^verbatim>\<open>static_cast<size_t>(i)\<close> of an \<^verbatim>\<open>int32_t\<close>, also the implicit conversion in
  mixed arithmetic: the value modulo \<open>2 ^ 32\<close>.\<close>

definition int32_to_size_t :: "int \<Rightarrow> size_t" where
  "int32_to_size_t i = word_of_int i"

text \<open>The narrowing of a \<^verbatim>\<open>size_t\<close> to \<^verbatim>\<open>int32_t\<close>: the same 32 bits, read as signed.\<close>

definition size_t_to_int32 :: "size_t \<Rightarrow> int" where
  "size_t_to_int32 w = sint w"

section \<open>The state of a delay line\<close>

text \<open>The private members of \<^verbatim>\<open>DelayLineView\<close>; \<open>line\<close> is the array that the
  pointer \<^verbatim>\<open>line_\<close> refers to. The member \<^verbatim>\<open>frac_\<close> is written by the two
  \<^verbatim>\<open>SetDelay\<close> members only: neither the constructor nor \<^verbatim>\<open>Init\<close> nor \<^verbatim>\<open>Reset\<close>
  gives it a value. \<open>frac_m\<close> is \<open>Some f\<close> when the member holds the number \<open>f\<close>, and
  \<open>None\<close> while it has never been written: its value is then indeterminate (whatever
  the memory holds, possibly a NaN or an infinity), and evaluating it is undefined.\<close>

record delay_line =
  frac_m :: "real option"
  write_ptr :: size_t
  delay :: size_t
  line :: "real list"
  max_size :: size_t

text \<open>The expression \<^verbatim>\<open>line_[i % max_size_]\<close>: the remainder by zero and a read past
  the end of the array are undefined.\<close>

definition fetch :: "delay_line \<Rightarrow> size_t \<Rightarrow> real option" where
  "fetch s i =
     (if max_size s = 0 then None
      else if unat (i mod max_size s) < length (line s)
        then Some (line s ! unat (i mod max_size s))
        else None)"

section \<open>The operations\<close>

text \<open>The loop of \<^verbatim>\<open>Reset\<close>:
  \<^verbatim>\<open>for(size_t i = 0; i < max_size_; i++) line_[i] = T(0);\<close>\<close>

function reset_loop :: "real list \<Rightarrow> size_t \<Rightarrow> size_t \<Rightarrow> real list option" where
  "reset_loop l i m =
     (if i < m
      then (if unat i < length l then reset_loop (l[unat i := 0]) (i + 1) m else None)
      else Some l)"
  by pat_completeness auto
termination
proof (relation "measure (\<lambda>(l, i, m). unat m - unat i)")
  show "wf (measure (\<lambda>(l, i, m). unat m - unat i))"
    by simp
next
  fix l :: "real list" and i m :: size_t
  assume lt: "i < m"
  then have "unat i < unat m"
    by (simp add: word_less_nat_alt)
  moreover from lt have "unat (i + 1) = Suc (unat i)"
    by unat_arith
  ultimately show "((l[unat i := 0], i + 1, m), (l, i, m)) \<in> measure (\<lambda>(l, i, m). unat m - unat i)"
    by simp
qed

definition Reset :: "delay_line \<Rightarrow> delay_line option" where
  "Reset s =
     do {
       l \<leftarrow> reset_loop (line s) 0 (max_size s);
       Some (s\<lparr>line := l, write_ptr := 0, delay := 1\<rparr>)
     }"

definition Init :: "delay_line \<Rightarrow> real list \<Rightarrow> size_t \<Rightarrow> delay_line option" where
  "Init s buf n = Reset (s\<lparr>line := buf, max_size := n\<rparr>)"

text \<open>\<^verbatim>\<open>SetDelay(size_t delay)\<close>\<close>

definition SetDelay :: "delay_line \<Rightarrow> size_t \<Rightarrow> delay_line" where
  "SetDelay s d =
     s\<lparr>frac_m := Some 0, delay := (if d < max_size s then d else max_size s - 1)\<rparr>"

text \<open>\<^verbatim>\<open>SetDelay(float delay)\<close>: both branches of the conditional have type
  \<^verbatim>\<open>size_t\<close>.\<close>

definition SetDelay_float :: "delay_line \<Rightarrow> real \<Rightarrow> delay_line option" where
  "SetDelay_float s d =
     do {
       int_delay \<leftarrow> float_to_int32 d;
       Some (s\<lparr>frac_m := Some (d - real_of_int int_delay),
               delay := (if int32_to_size_t int_delay < max_size s
                         then int32_to_size_t int_delay
                         else max_size s - 1)\<rparr>)
     }"

definition Write :: "delay_line \<Rightarrow> real \<Rightarrow> delay_line option" where
  "Write s sample =
     (if unat (write_ptr s) < length (line s) \<and> max_size s \<noteq> 0
      then Some (s\<lparr>line := (line s)[unat (write_ptr s) := sample],
                    write_ptr := (write_ptr s - 1 + max_size s) mod max_size s\<rparr>)
      else None)"

text \<open>\<^verbatim>\<open>Read()\<close>, a \<^verbatim>\<open>const\<close> member: it yields a value and no state.\<close>

definition Read :: "delay_line \<Rightarrow> real option" where
  "Read s =
     do {
       a \<leftarrow> fetch s (write_ptr s + delay s);
       b \<leftarrow> fetch s (write_ptr s + delay s + 1);
       frac \<leftarrow> frac_m s;
       Some (a + (b - a) * frac)
     }"

text \<open>\<^verbatim>\<open>Read(float delay)\<close>\<close>

definition Read_float :: "delay_line \<Rightarrow> real \<Rightarrow> real option" where
  "Read_float s d =
     do {
       delay_integral \<leftarrow> float_to_int32 d;
       let delay_fractional = d - real_of_int delay_integral;
       a \<leftarrow> fetch s (write_ptr s + int32_to_size_t delay_integral);
       b \<leftarrow> fetch s (write_ptr s + int32_to_size_t delay_integral + 1);
       Some (a + (b - a) * delay_fractional)
     }"

text \<open>The arithmetic of \<^verbatim>\<open>ReadHermite\<close> on the four fetched samples.\<close>

definition hermite :: "real \<Rightarrow> real \<Rightarrow> real \<Rightarrow> real \<Rightarrow> real \<Rightarrow> real" where
  "hermite xm1 x0 x1 x2 f =
     (let c = (x1 - xm1) * 0.5;
          v = x0 - x1;
          w = c + v;
          a = w + v + (x2 - x0) * 0.5;
          b_neg = w + a
      in (((a * f) - b_neg) * f + c) * f + x0)"

text \<open>\<^verbatim>\<open>ReadHermite(float delay)\<close>: \<open>t\<close> is an \<^verbatim>\<open>int32_t\<close>, so \<open>t - 1\<close>, \<open>t + 1\<close>
  and \<open>t + 2\<close> are signed computations, converted to \<^verbatim>\<open>size_t\<close> for the remainder.\<close>

definition ReadHermite :: "delay_line \<Rightarrow> real \<Rightarrow> real option" where
  "ReadHermite s d =
     do {
       delay_integral \<leftarrow> float_to_int32 d;
       let delay_fractional = d - real_of_int delay_integral;
       let t = size_t_to_int32 (write_ptr s + int32_to_size_t delay_integral + max_size s);
       im1 \<leftarrow> int32 (t - 1);
       xm1 \<leftarrow> fetch s (int32_to_size_t im1);
       x0 \<leftarrow> fetch s (int32_to_size_t t);
       i1 \<leftarrow> int32 (t + 1);
       x1 \<leftarrow> fetch s (int32_to_size_t i1);
       i2 \<leftarrow> int32 (t + 2);
       x2 \<leftarrow> fetch s (int32_to_size_t i2);
       Some (hermite xm1 x0 x1 x2 delay_fractional)
     }"

definition Allpass :: "delay_line \<Rightarrow> real \<Rightarrow> size_t \<Rightarrow> real \<Rightarrow> (real \<times> delay_line) option" where
  "Allpass s sample d coefficient =
     do {
       read \<leftarrow> fetch s (write_ptr s + d);
       let write = sample + coefficient * read;
       s' \<leftarrow> Write s write;
       Some (- write * coefficient + read, s')
     }"

section \<open>Calls and call sequences\<close>

text \<open>One call of the public interface, with its arguments. A call yields the returned
  sample (if the member returns one) and the state after it; the \<^verbatim>\<open>const\<close> members hand
  the state on as it is.\<close>

datatype op =
    Op_Reset
  | Op_SetDelay size_t
  | Op_SetDelay_float real
  | Op_Write real
  | Op_Read
  | Op_Read_float real
  | Op_ReadHermite real
  | Op_Allpass real size_t real

fun call :: "delay_line \<Rightarrow> op \<Rightarrow> (real option \<times> delay_line) option" where
  "call s Op_Reset = do { s' \<leftarrow> Reset s; Some (None, s') }"
| "call s (Op_SetDelay d) = Some (None, SetDelay s d)"
| "call s (Op_SetDelay_float d) = do { s' \<leftarrow> SetDelay_float s d; Some (None, s') }"
| "call s (Op_Write x) = do { s' \<leftarrow> Write s x; Some (None, s') }"
| "call s Op_Read = do { y \<leftarrow> Read s; Some (Some y, s) }"
| "call s (Op_Read_float d) = do { y \<leftarrow> Read_float s d; Some (Some y, s) }"
| "call s (Op_ReadHermite d) = do { y \<leftarrow> ReadHermite s d; Some (Some y, s) }"
| "call s (Op_Allpass x d g) = do { (y, s') \<leftarrow> Allpass s x d g; Some (Some y, s') }"

fun run :: "delay_line \<Rightarrow> op list \<Rightarrow> delay_line option" where
  "run s [] = Some s"
| "run s (c # cs) = do { (y, s') \<leftarrow> call s c; run s' cs }"

text \<open>A state is valid when the line is bound to an array of at least \<open>max_size\<close>
  elements, \<open>max_size\<close> is positive, and the cursor and the stored delay are inside the
  ring. An array of 4-byte samples in a 32-bit address space has fewer than \<open>2 ^ 29\<close>
  elements (no object is larger than \<^verbatim>\<open>PTRDIFF_MAX\<close> bytes).\<close>

definition valid :: "delay_line \<Rightarrow> bool" where
  "valid s \<longleftrightarrow>
     max_size s \<noteq> 0 \<and> unat (max_size s) \<le> length (line s) \<and> unat (max_size s) < 2 ^ 29 \<and>
     write_ptr s < max_size s \<and> delay s \<le> max_size s"

section \<open>The caller's tick\<close>

text \<open>The caller of the delay line pushes one sample per audio tick with \<^verbatim>\<open>Write\<close> and
  then reads the delayed signal with \<^verbatim>\<open>Read\<close>. \<open>ticks\<close> runs this for a list of
  samples and collects what the reads return.\<close>

definition tick :: "delay_line \<Rightarrow> real \<Rightarrow> (real \<times> delay_line) option" where
  "tick s v = do { s' \<leftarrow> Write s v; y \<leftarrow> Read s'; Some (y, s') }"

fun ticks :: "delay_line \<Rightarrow> real list \<Rightarrow> (real list \<times> delay_line) option" where
  "ticks s [] = Some ([], s)"
| "ticks s (v # vs) =
     do {
       (y, s') \<leftarrow> tick s v;
       (ys, s'') \<leftarrow> ticks s' vs;
       Some (y # ys, s'')
     }"

text \<open>Of the values \<open>vs\<close> written so far, the last one is the most recent and the one
  before it the second-most-recent.\<close>

definition most_recent :: "real list \<Rightarrow> real" where
  "most_recent vs = last vs"

definition second_most_recent :: "real list \<Rightarrow> real" where
  "second_most_recent vs = last (butlast vs)"

text \<open>The stored delay after \<^verbatim>\<open>SetDelay(1)\<close>: 1, or 0 in a ring of one slot.\<close>

definition delay_one :: "size_t \<Rightarrow> size_t" where
  "delay_one m = (if 1 < m then 1 else m - 1)"

text \<open>The precondition on delay arguments: a call that takes a delay passes at least 1.\<close>

fun delay_arg_ok :: "op \<Rightarrow> bool" where
  "delay_arg_ok (Op_SetDelay d) \<longleftrightarrow> 1 \<le> d"
| "delay_arg_ok (Op_SetDelay_float d) \<longleftrightarrow> 1 \<le> d"
| "delay_arg_ok (Op_Read_float d) \<longleftrightarrow> 1 \<le> d"
| "delay_arg_ok (Op_ReadHermite d) \<longleftrightarrow> 1 \<le> d"
| "delay_arg_ok (Op_Allpass x d g) \<longleftrightarrow> 1 \<le> d"
| "delay_arg_ok Op_Reset \<longleftrightarrow> True"
| "delay_arg_ok (Op_Write x) \<longleftrightarrow> True"
| "delay_arg_ok Op_Read \<longleftrightarrow> True"

text \<open>The invariants of the data model: the cursor is inside the ring and the stored
  delay is between 1 and \<open>max_size - 1\<close>.\<close>

definition invariants :: "delay_line \<Rightarrow> bool" where
  "invariants s \<longleftrightarrow>
     write_ptr s < max_size s \<and> 1 \<le> delay s \<and> delay s \<le> max_size s - 1"

section \<open>Index arithmetic in a valid state\<close>

lemma valid_unat:
  assumes "valid s"
  shows "0 < unat (max_size s)" and "unat (max_size s) \<le> length (line s)"
    and "unat (max_size s) < 2 ^ 29" and "unat (write_ptr s) < unat (max_size s)"
    and "unat (delay s) \<le> unat (max_size s)"
  using assms by (simp_all add: valid_def word_less_nat_alt word_le_nat_alt unat_gt_0)

lemma fetch_valid:
  assumes "valid s"
  shows "fetch s i = Some (line s ! unat (i mod max_size s))"
proof -
  from assms have nz: "max_size s \<noteq> 0" by (simp add: valid_def)
  then have "i mod max_size s < max_size s"
    by (simp add: word_mod_less_divisor word_neq_0_conv)
  then have "unat (i mod max_size s) < unat (max_size s)"
    by (simp add: word_less_nat_alt)
  with valid_unat(2)[OF assms] have "unat (i mod max_size s) < length (line s)"
    by simp
  with nz show ?thesis by (simp add: fetch_def)
qed

lemma fetch_nat:
  assumes "valid s" and "unat i = n"
  shows "fetch s i = Some (line s ! (n mod unat (max_size s)))"
  using assms fetch_valid[OF assms(1), of i] by (simp add: unat_mod)

lemma unat_add2:
  fixes a b :: size_t
  assumes "unat a + unat b < 2 ^ 32"
  shows "unat (a + b) = unat a + unat b"
  using assms by (simp add: unat_word_ariths)

lemma unat_add2_1:
  fixes a b :: size_t
  assumes "unat a + unat b + 1 < 2 ^ 32"
  shows "unat (a + b + 1) = unat a + unat b + 1"
  using assms by (simp add: unat_word_ariths)

section \<open>Read at the stored delay\<close>

lemma Read_valid:
  assumes "valid s"
  shows "Read s =
     (case frac_m s of
        None \<Rightarrow> None
      | Some f \<Rightarrow>
          Some (line s ! ((unat (write_ptr s) + unat (delay s)) mod unat (max_size s)) +
            (line s ! ((unat (write_ptr s) + unat (delay s) + 1) mod unat (max_size s)) -
             line s ! ((unat (write_ptr s) + unat (delay s)) mod unat (max_size s))) * f))"
proof -
  from valid_unat[OF assms] have small: "unat (write_ptr s) + unat (delay s) + 1 < 2 ^ 32"
    by simp
  then have ua: "unat (write_ptr s + delay s) = unat (write_ptr s) + unat (delay s)"
    by (simp add: unat_add2)
  from small have ub: "unat (write_ptr s + delay s + 1) = unat (write_ptr s) + unat (delay s) + 1"
    by (rule unat_add2_1)
  show ?thesis
    by (simp add: Read_def fetch_nat[OF assms ua] fetch_nat[OF assms ub] split: option.split)
qed

text \<open>
  Claim C1. In every valid state with stored delay \<open>d = delay s\<close> and stored fraction
  \<open>f\<close> (\<open>frac_m s = Some f\<close>), \<^verbatim>\<open>Read()\<close> returns \<open>a + (b - a) * f\<close>, where \<open>a\<close> is
  the slot at ring position \<open>(write_ptr + d) mod max_size\<close> and \<open>b\<close> the slot at
  \<open>(write_ptr + d + 1) mod max_size\<close>, the positions computed on the natural numbers;
  the call leaves the state as it is. The statement covers every valid state: where the
  fraction has never been written there is no \<open>f\<close>, and the read is undefined.
\<close>

theorem Read_stored_delay:
  assumes "valid s"
  shows "let a = line s ! ((unat (write_ptr s) + unat (delay s)) mod unat (max_size s));
             b = line s ! ((unat (write_ptr s) + unat (delay s) + 1) mod unat (max_size s))
         in Read s = (case frac_m s of None \<Rightarrow> None | Some f \<Rightarrow> Some (a + (b - a) * f)) \<and>
            call s Op_Read =
              (case frac_m s of None \<Rightarrow> None | Some f \<Rightarrow> Some (Some (a + (b - a) * f), s))"
  using Read_valid[OF assms] by (simp add: Let_def split: option.split)

theorem Read_stored_delay_witness:
  "valid \<lparr>frac_m = Some (1/2), write_ptr = 1, delay = 2, line = [10, 20, 30, 40], max_size = 4\<rparr> \<and>
   Read \<lparr>frac_m = Some (1/2), write_ptr = 1, delay = 2, line = [10, 20, 30, 40], max_size = 4\<rparr> = Some 25"
proof -
  have v: "valid \<lparr>frac_m = Some (1/2), write_ptr = 1, delay = 2, line = [10, 20, 30, 40], max_size = 4\<rparr>"
    by (simp add: valid_def)
  from Read_stored_delay[OF v] show ?thesis
    using v by (simp add: Let_def)
qed

section \<open>Write, and a read after each write\<close>

lemma unat_write_ptr_next:
  fixes wp m :: size_t
  assumes "m \<noteq> 0" and "unat wp < unat m" and "unat m < 2 ^ 29"
  shows "unat ((wp - 1 + m) mod m) = (unat wp + unat m - 1) mod unat m"
proof -
  have eq: "wp - 1 + m = wp + (m - 1)" by simp
  from assms(1) have m1: "unat (m - 1) = unat m - 1"
    by (simp add: unat_minus_one)
  from assms have "unat wp + unat (m - 1) < 2 ^ 32"
    by (simp add: m1)
  then have "unat (wp + (m - 1)) = unat wp + unat (m - 1)"
    by (rule unat_add2)
  moreover from assms(1) have "0 < unat m"
    by (simp add: unat_gt_0)
  ultimately have "unat (wp - 1 + m) = unat wp + unat m - 1"
    using m1 by (simp add: eq)
  then show ?thesis by (simp add: unat_mod)
qed

lemma Write_valid:
  assumes "valid s"
  shows "Write s x = Some (s\<lparr>line := (line s)[unat (write_ptr s) := x],
                           write_ptr := (write_ptr s - 1 + max_size s) mod max_size s\<rparr>)"
  using valid_unat[OF assms] assms by (simp add: Write_def valid_def)

lemma Write_preserves_valid:
  assumes "valid s" and "Write s x = Some s'"
  shows "valid s'"
proof -
  from assms have s': "s' = s\<lparr>line := (line s)[unat (write_ptr s) := x],
                           write_ptr := (write_ptr s - 1 + max_size s) mod max_size s\<rparr>"
    by (simp add: Write_valid)
  from assms(1) have "max_size s \<noteq> 0" by (simp add: valid_def)
  then have "(write_ptr s - 1 + max_size s) mod max_size s < max_size s"
    by (simp add: word_mod_less_divisor word_neq_0_conv)
  with assms(1) show ?thesis by (simp add: s' valid_def)
qed

lemma Write_unat_write_ptr:
  assumes "valid s" and "Write s x = Some s'"
  shows "unat (write_ptr s') = (unat (write_ptr s) + unat (max_size s) - 1) mod unat (max_size s)"
proof -
  from assms have s': "s' = s\<lparr>line := (line s)[unat (write_ptr s) := x],
                           write_ptr := (write_ptr s - 1 + max_size s) mod max_size s\<rparr>"
    by (simp add: Write_valid)
  from assms(1) have "max_size s \<noteq> 0" by (simp add: valid_def)
  with valid_unat[OF assms(1)] show ?thesis
    by (simp add: s' unat_write_ptr_next)
qed

lemma ring_back_one:
  fixes wp m d :: nat
  assumes "wp < m" and "d = 1 \<or> m = 1"
  shows "((wp + m - 1) mod m + d) mod m = wp"
proof (cases "m = 1")
  case True
  with assms show ?thesis by simp
next
  case False
  with assms have d: "d = 1" by simp
  have "((wp + m - 1) mod m + 1) mod m = (wp + m - 1 + 1) mod m"
    by (rule mod_add_left_eq)
  also from assms have "wp + m - 1 + 1 = wp + m" by simp
  also from assms have "(wp + m) mod m = wp" by simp
  finally show ?thesis by (simp add: d)
qed

lemma unat_delay_one:
  assumes "m \<noteq> 0"
  shows "unat (delay_one m) = 1 \<or> unat m = 1"
proof (cases "1 < m")
  case True
  then show ?thesis by (simp add: delay_one_def)
next
  case False
  then have "unat m \<le> 1" by (simp add: word_less_nat_alt)
  moreover from assms have "0 < unat m" by (simp add: unat_gt_0)
  ultimately show ?thesis by simp
qed

lemma tick_returns_written:
  assumes v: "valid s" and f: "frac_m s = Some 0" and d: "delay s = delay_one (max_size s)"
  shows "\<exists>s'. tick s x = Some (x, s') \<and> Write s x = Some s'"
proof -
  define s' where "s' = s\<lparr>line := (line s)[unat (write_ptr s) := x],
                           write_ptr := (write_ptr s - 1 + max_size s) mod max_size s\<rparr>"
  have w: "Write s x = Some s'"
    by (simp add: s'_def Write_valid[OF v])
  have v': "valid s'"
    using v w by (rule Write_preserves_valid)
  have wp': "unat (write_ptr s') = (unat (write_ptr s) + unat (max_size s) - 1) mod unat (max_size s)"
    using v w by (rule Write_unat_write_ptr)
  have same: "max_size s' = max_size s" "delay s' = delay s" "frac_m s' = Some 0"
    "line s' = (line s)[unat (write_ptr s) := x]"
    by (simp_all add: s'_def f)
  from v have nz: "max_size s \<noteq> 0" by (simp add: valid_def)
  have pos: "(unat (write_ptr s') + unat (delay s')) mod unat (max_size s') = unat (write_ptr s)"
    unfolding wp' same d
    using valid_unat(4)[OF v] unat_delay_one[OF nz] by (rule ring_back_one)
  from valid_unat[OF v] have "line s' ! unat (write_ptr s) = x"
    by (simp add: same)
  with Read_valid[OF v'] pos have "Read s' = Some x"
    by (simp add: same)
  with w have "tick s x = Some (x, s')"
    by (simp add: tick_def)
  with w show ?thesis by blast
qed

lemma ticks_returns_written:
  assumes "valid s" and "frac_m s = Some 0" and "delay s = delay_one (max_size s)"
  shows "\<exists>s'. ticks s vs = Some (vs, s') \<and> max_size s' = max_size s \<and>
     unat (write_ptr s') =
       (unat (write_ptr s) + length vs * (unat (max_size s) - 1)) mod unat (max_size s)"
  using assms
proof (induction vs arbitrary: s)
  case Nil
  from valid_unat(4)[OF Nil(1)] show ?case by simp
next
  case (Cons x vs)
  from tick_returns_written[OF Cons.prems] obtain s1
    where t: "tick s x = Some (x, s1)" and w: "Write s x = Some s1"
    by blast
  from Cons.prems(1) w have v1: "valid s1"
    by (rule Write_preserves_valid)
  from w Cons.prems(1) have same: "max_size s1 = max_size s" "delay s1 = delay s" "frac_m s1 = frac_m s"
    by (auto simp: Write_valid)
  from Cons.prems(1) w have wp1:
    "unat (write_ptr s1) = (unat (write_ptr s) + unat (max_size s) - 1) mod unat (max_size s)"
    by (rule Write_unat_write_ptr)
  from Cons.IH[OF v1] Cons.prems same obtain s2
    where r: "ticks s1 vs = Some (vs, s2)" and m2: "max_size s2 = max_size s"
      and wp2: "unat (write_ptr s2) =
        (unat (write_ptr s1) + length vs * (unat (max_size s) - 1)) mod unat (max_size s)"
    by auto
  from valid_unat(1)[OF Cons.prems(1)]
  have "unat (write_ptr s) + unat (max_size s) - 1 = unat (write_ptr s) + (unat (max_size s) - 1)"
    by simp
  then have "unat (write_ptr s2) =
      (unat (write_ptr s) + (unat (max_size s) - 1) + length vs * (unat (max_size s) - 1))
        mod unat (max_size s)"
    by (simp add: wp2 wp1 mod_add_left_eq)
  then have "unat (write_ptr s2) =
      (unat (write_ptr s) + length (x # vs) * (unat (max_size s) - 1)) mod unat (max_size s)"
    by (simp add: add.assoc)
  with t r m2 show ?case by simp
qed

lemma SetDelay_one:
  assumes "valid s"
  shows "valid (SetDelay s 1)" and "frac_m (SetDelay s 1) = Some 0"
    and "delay (SetDelay s 1) = delay_one (max_size (SetDelay s 1))"
    and "max_size (SetDelay s 1) = max_size s" and "write_ptr (SetDelay s 1) = write_ptr s"
proof -
  from assms have "max_size s \<noteq> 0" by (simp add: valid_def)
  then have "max_size s - 1 \<le> max_size s"
    by (simp add: word_le_nat_alt unat_minus_one)
  moreover have "1 < max_size s \<Longrightarrow> 1 \<le> max_size s"
    by simp
  ultimately show "valid (SetDelay s 1)"
    using assms by (simp add: valid_def SetDelay_def)
qed (simp_all add: SetDelay_def delay_one_def)

text \<open>
  Claim C2, as amended. With the order \<^verbatim>\<open>Write\<close> then \<^verbatim>\<open>Read\<close> in every tick and
  the delay set to 1, each read returns the value that the same tick has just written,
  the most recent one: the list of read results is the list of written values, for any
  number of ticks. After \<open>2 * max_size\<close> ticks the write cursor is back where it
  started, so nothing drifts over two full cycles of the ring.
\<close>

theorem ticks_read_most_recent:
  assumes "valid s"
  shows "\<exists>s'. ticks (SetDelay s 1) vs = Some (vs, s') \<and>
    (length vs = 2 * unat (max_size s) \<longrightarrow> write_ptr s' = write_ptr s)"
proof -
  from ticks_returns_written[OF SetDelay_one(1-3)[OF assms], of vs] obtain s'
    where r: "ticks (SetDelay s 1) vs = Some (vs, s')"
      and wp: "unat (write_ptr s') =
        (unat (write_ptr s) + length vs * (unat (max_size s) - 1)) mod unat (max_size s)"
    by (auto simp: SetDelay_one(4,5)[OF assms])
  have "write_ptr s' = write_ptr s" if len: "length vs = 2 * unat (max_size s)"
  proof -
    have "2 * unat (max_size s) * (unat (max_size s) - 1) =
        unat (max_size s) * (2 * (unat (max_size s) - 1))"
      by simp
    then have "unat (write_ptr s') =
        (unat (write_ptr s) + unat (max_size s) * (2 * (unat (max_size s) - 1))) mod unat (max_size s)"
      by (simp only: wp len)
    then have "unat (write_ptr s') = unat (write_ptr s) mod unat (max_size s)"
      by (simp only: mod_mult_self2)
    with valid_unat(4)[OF assms] show ?thesis
      by (simp add: word_unat_eq_iff)
  qed
  with r show ?thesis by blast
qed

theorem ticks_read_most_recent_witness:
  "\<exists>s'. ticks (SetDelay \<lparr>frac_m = Some (1/2), write_ptr = 0, delay = 1, line = [0, 0], max_size = 2\<rparr> 1)
           [10, 20, 30, 40] = Some ([10, 20, 30, 40], s') \<and> write_ptr s' = 0"
proof -
  have v: "valid \<lparr>frac_m = Some (1/2), write_ptr = 0, delay = 1, line = [0, 0], max_size = 2\<rparr>"
    by (simp add: valid_def)
  from ticks_read_most_recent[OF v, of "[10, 20, 30, 40]"] show ?thesis
    by simp
qed

text \<open>
  Claim C2 as stated fails: in a ring of two slots, after the writes 10, 20, 30, 40 the
  reads at delay 1 return 10, 20, 30, 40, and the last of them is 40, not the
  second-most-recent value 30.
\<close>

theorem ticks_second_most_recent_counterexample:
  "map_option fst (ticks (SetDelay \<lparr>frac_m = Some (1/2), write_ptr = 0, delay = 1, line = [0, 0], max_size = 2\<rparr> 1)
      [10, 20, 30, 40]) = Some [10, 20, 30, 40] \<and>
   map_option (last \<circ> fst)
     (ticks (SetDelay \<lparr>frac_m = Some (1/2), write_ptr = 0, delay = 1, line = [0, 0], max_size = 2\<rparr> 1)
        [10, 20, 30, 40]) = Some (most_recent [10, 20, 30, 40]) \<and>
   map_option (last \<circ> fst)
     (ticks (SetDelay \<lparr>frac_m = Some (1/2), write_ptr = 0, delay = 1, line = [0, 0], max_size = 2\<rparr> 1)
        [10, 20, 30, 40]) \<noteq> Some (second_most_recent [10, 20, 30, 40])"
  by (simp add: tick_def Write_def Read_def fetch_def SetDelay_def most_recent_def
      second_most_recent_def)

section \<open>The allpass section\<close>

lemma Allpass_valid:
  assumes "valid s"
  shows "Allpass s x d g =
     Some (line s ! unat ((write_ptr s + d) mod max_size s) -
             g * (x + g * (line s ! unat ((write_ptr s + d) mod max_size s))),
           s\<lparr>line := (line s)[unat (write_ptr s) :=
                      x + g * (line s ! unat ((write_ptr s + d) mod max_size s))],
             write_ptr := (write_ptr s - 1 + max_size s) mod max_size s\<rparr>)"
proof -
  define h where "h = line s ! unat ((write_ptr s + d) mod max_size s)"
  define s' where "s' = s\<lparr>line := (line s)[unat (write_ptr s) := x + g * h],
                    write_ptr := (write_ptr s - 1 + max_size s) mod max_size s\<rparr>"
  have f: "fetch s (write_ptr s + d) = Some h"
    by (simp add: h_def fetch_valid[OF assms])
  have w: "Write s (x + g * h) = Some s'"
    by (simp add: s'_def Write_valid[OF assms])
  have "Allpass s x d g = Some (- (x + g * h) * g + h, s')"
    by (simp only: Allpass_def Let_def f w Option.bind.bind_lunit)
  moreover have "- (x + g * h) * g + h = h - g * (x + g * h)"
    by algebra
  ultimately show ?thesis
    by (simp add: h_def s'_def)
qed

text \<open>
  Claim C3, as amended. In every valid state, for every sample \<open>x\<close>, coefficient \<open>g\<close> and
  delay \<open>d\<close> with \<open>write_ptr + d < 2 ^ 32\<close> (the \<^verbatim>\<open>size_t\<close> sum of the code does not wrap),
  \<^verbatim>\<open>Allpass(x, d, g)\<close> returns \<open>h - g * (x + g * h)\<close>, where \<open>h\<close> is the slot at the ring
  position \<open>(write_ptr + d) mod max_size\<close>, computed on the natural numbers. The state
  after the call is the one that \<^verbatim>\<open>Write(x + g * h)\<close> produces: the new sample is stored
  at the old cursor and the cursor moves one slot down modulo \<open>max_size\<close>.
\<close>

theorem Allpass_fused:
  assumes "valid s" and "unat (write_ptr s) + unat d < 2 ^ 32"
  shows "let h = line s ! ((unat (write_ptr s) + unat d) mod unat (max_size s));
             s' = s\<lparr>line := (line s)[unat (write_ptr s) := x + g * h],
                    write_ptr := (write_ptr s - 1 + max_size s) mod max_size s\<rparr>
         in Allpass s x d g = Some (h - g * (x + g * h), s') \<and>
            call s (Op_Allpass x d g) = Some (Some (h - g * (x + g * h)), s') \<and>
            Write s (x + g * h) = Some s' \<and>
            unat (write_ptr s') = (unat (write_ptr s) + unat (max_size s) - 1) mod unat (max_size s)"
proof -
  define h where "h = line s ! ((unat (write_ptr s) + unat d) mod unat (max_size s))"
  define s' where "s' = s\<lparr>line := (line s)[unat (write_ptr s) := x + g * h],
                    write_ptr := (write_ptr s - 1 + max_size s) mod max_size s\<rparr>"
  from assms(2) have "unat ((write_ptr s + d) mod max_size s) =
      (unat (write_ptr s) + unat d) mod unat (max_size s)"
    by (simp add: unat_mod unat_add2)
  then have n: "line s ! unat ((write_ptr s + d) mod max_size s) = h"
    by (simp add: h_def)
  have a: "Allpass s x d g = Some (h - g * (x + g * h), s')"
    by (simp only: Allpass_valid[OF assms(1)] n s'_def)
  then have c: "call s (Op_Allpass x d g) = Some (Some (h - g * (x + g * h)), s')"
    by simp
  have w: "Write s (x + g * h) = Some s'"
    by (simp add: s'_def Write_valid[OF assms(1)])
  have p: "unat (write_ptr s') = (unat (write_ptr s) + unat (max_size s) - 1) mod unat (max_size s)"
    using assms(1) w by (rule Write_unat_write_ptr)
  from a c w p show ?thesis
    unfolding Let_def h_def [symmetric] s'_def [symmetric] by blast
qed

theorem Allpass_fused_witness:
  "valid \<lparr>frac_m = Some 0, write_ptr = 1, delay = 1, line = [10, 20, 30, 40], max_size = 4\<rparr> \<and>
   unat (1 :: size_t) + unat (7 :: size_t) < 2 ^ 32 \<and>
   Allpass \<lparr>frac_m = Some 0, write_ptr = 1, delay = 1, line = [10, 20, 30, 40], max_size = 4\<rparr> 1 7 (1/2) =
     Some (7, \<lparr>frac_m = Some 0, write_ptr = 0, delay = 1, line = [10, 6, 30, 40], max_size = 4\<rparr>)"
proof -
  have v: "valid \<lparr>frac_m = Some 0, write_ptr = 1, delay = 1, line = [10, 20, 30, 40], max_size = 4\<rparr>"
    by (simp add: valid_def)
  have b: "unat (write_ptr \<lparr>frac_m = Some 0, write_ptr = 1, delay = 1, line = [10, 20, 30, 40 :: real],
      max_size = 4\<rparr>) + unat (7 :: size_t) < 2 ^ 32"
    by simp
  from Allpass_fused[OF v b, of 1 "1/2"] show ?thesis
    using v by (simp add: Let_def)
qed

text \<open>
  Claim C3 as stated, for every integer delay, fails where the \<^verbatim>\<open>size_t\<close> sum wraps: in a
  ring of three slots with the cursor at 1, the delay \<open>4294967295 = 2 ^ 32 - 1\<close> makes the
  code's sum \<open>write_ptr + d\<close> equal to 0, so the code reads slot 0 and returns
  \<open>10 - 1/2 * (1 + 1/2 * 10) = 7\<close>; the ring position \<open>(1 + 4294967295) mod 3\<close> of the claim is
  slot 1, for which the claimed value is \<open>20 - 1/2 * (1 + 1/2 * 20) = 29/2\<close>.
\<close>

theorem Allpass_wrap_counterexample:
  "map_option fst
     (Allpass \<lparr>frac_m = Some 0, write_ptr = 1, delay = 1, line = [10, 20, 30], max_size = 3\<rparr>
        1 4294967295 (1/2)) = Some 7 \<and>
   (unat (1 :: size_t) + unat (4294967295 :: size_t)) mod unat (3 :: size_t) = 1 \<and>
   [10, 20, 30] ! ((unat (1 :: size_t) + unat (4294967295 :: size_t)) mod unat (3 :: size_t)) -
     1/2 * (1 + 1/2 * ([10, 20, 30] ! ((unat (1 :: size_t) + unat (4294967295 :: size_t)) mod
        unat (3 :: size_t)))) = (29/2 :: real) \<and>
   map_option fst
     (Allpass \<lparr>frac_m = Some 0, write_ptr = 1, delay = 1, line = [10, 20, 30], max_size = 3\<rparr>
        1 4294967295 (1/2)) \<noteq>
     Some ([10, 20, 30] ! ((unat (1 :: size_t) + unat (4294967295 :: size_t)) mod unat (3 :: size_t)) -
       1/2 * (1 + 1/2 * ([10, 20, 30] ! ((unat (1 :: size_t) + unat (4294967295 :: size_t)) mod
          unat (3 :: size_t)))))"
proof -
  have f: "fetch \<lparr>frac_m = Some 0, write_ptr = 1, delay = 1, line = [10, 20, 30], max_size = 3\<rparr>
      (1 + 4294967295) = Some 10"
    by (simp add: fetch_def)
  have a: "map_option fst
     (Allpass \<lparr>frac_m = Some 0, write_ptr = 1, delay = 1, line = [10, 20, 30], max_size = 3\<rparr>
        1 4294967295 (1/2)) = Some 7"
    using f by (simp add: Allpass_def Write_def Let_def)
  have p: "(unat (1 :: size_t) + unat (4294967295 :: size_t)) mod unat (3 :: size_t) = 1"
    by simp
  show ?thesis
    unfolding a p by simp
qed

section \<open>Setting the stored delay\<close>

lemma trunc_nonneg:
  assumes "0 \<le> x"
  shows "trunc x = \<lfloor>x\<rfloor>" and "0 \<le> trunc x"
  using assms by (simp_all add: trunc_def)

lemma float_to_int32_nonneg:
  assumes "0 \<le> x" and "x < 2 ^ 31"
  shows "float_to_int32 x = Some (trunc x)" and "trunc x < 2 ^ 31"
proof -
  from assms(2) have "\<lfloor>x\<rfloor> < 2 ^ 31"
    by (simp add: floor_less_iff)
  with assms(1) show "trunc x < 2 ^ 31"
    by (simp add: trunc_def)
  with trunc_nonneg(2)[OF assms(1)] show "float_to_int32 x = Some (trunc x)"
    by (simp add: float_to_int32_def int32_def INT32_MIN_def INT32_MAX_def)
qed

lemma float_to_int32_too_big:
  assumes "2 ^ 31 \<le> x"
  shows "float_to_int32 x = None"
proof -
  from assms have "2 ^ 31 \<le> \<lfloor>x\<rfloor>"
    by (simp add: le_floor_iff)
  moreover from assms have "0 \<le> x"
    by (rule order_trans[rotated]) simp
  ultimately have "2 ^ 31 \<le> trunc x"
    by (simp add: trunc_def)
  then show ?thesis
    by (simp add: float_to_int32_def int32_def INT32_MAX_def)
qed

lemma unat_int32_to_size_t:
  assumes "0 \<le> i" and "i < 2 ^ 32"
  shows "unat (int32_to_size_t i) = nat i"
proof -
  have "uint (word_of_int i :: size_t) = i"
    using assms by (simp add: uint_word_of_int)
  then show ?thesis
    by (simp add: int32_to_size_t_def unat_eq_nat_uint)
qed

lemma clamp_is_min:
  fixes d m :: size_t
  assumes "m \<noteq> 0"
  shows "(if d < m then d else m - 1) = min d (m - 1)"
    and "unat (min d (m - 1)) = min (unat d) (unat m - 1)"
proof -
  from assms have m1: "unat (m - 1) = unat m - 1" and pos: "0 < unat m"
    by (simp_all add: unat_minus_one unat_gt_0)
  then have "d < m \<longleftrightarrow> d \<le> m - 1"
    by (auto simp: word_less_nat_alt word_le_nat_alt)
  then show "(if d < m then d else m - 1) = min d (m - 1)"
    by (auto simp: min_def)
  show "unat (min d (m - 1)) = min (unat d) (unat m - 1)"
    by (simp add: min_def word_le_nat_alt m1)
qed

text \<open>
  Claim C4, as amended. In a valid state the two setters of the stored delay saturate at
  \<open>max_size - 1\<close>. \<^verbatim>\<open>SetDelay(size_t d)\<close> stores \<open>min d (max_size - 1)\<close> and the
  fraction 0, for every \<open>d\<close>. \<^verbatim>\<open>SetDelay(float x)\<close>, for every \<open>x\<close> with
  \<open>0 \<le> x < 2 ^ 31\<close> (the integer part of \<open>x\<close> fits the \<^verbatim>\<open>int32_t\<close> it is cast to),
  stores the fraction \<open>x - i\<close> and the delay \<open>min i (max_size - 1)\<close>, where \<open>i\<close> is the
  integer part of \<open>x\<close>. In particular \<^verbatim>\<open>SetDelay(max_size + 10)\<close> stores the delay
  \<open>max_size - 1\<close>.
\<close>

theorem SetDelay_saturates:
  assumes "valid s" and "0 \<le> x" and "x < 2 ^ 31"
  shows "SetDelay s d = s\<lparr>frac_m := Some 0, delay := min d (max_size s - 1)\<rparr> \<and>
         unat (min d (max_size s - 1)) = min (unat d) (unat (max_size s) - 1) \<and>
         SetDelay_float s x =
           Some (s\<lparr>frac_m := Some (x - real_of_int (trunc x)),
                   delay := min (int32_to_size_t (trunc x)) (max_size s - 1)\<rparr>) \<and>
         unat (min (int32_to_size_t (trunc x)) (max_size s - 1)) =
           min (nat (trunc x)) (unat (max_size s) - 1) \<and>
         delay (SetDelay s (max_size s + 10)) = max_size s - 1"
proof -
  from assms(1) have nz: "max_size s \<noteq> 0" by (simp add: valid_def)
  have a: "SetDelay s d = s\<lparr>frac_m := Some 0, delay := min d (max_size s - 1)\<rparr>"
    by (simp only: SetDelay_def clamp_is_min(1)[OF nz])
  have b: "unat (min d (max_size s - 1)) = min (unat d) (unat (max_size s) - 1)"
    by (rule clamp_is_min(2)[OF nz])
  have c: "SetDelay_float s x =
           Some (s\<lparr>frac_m := Some (x - real_of_int (trunc x)),
                   delay := min (int32_to_size_t (trunc x)) (max_size s - 1)\<rparr>)"
    by (simp only: SetDelay_float_def float_to_int32_nonneg(1)[OF assms(2,3)]
        Option.bind.bind_lunit clamp_is_min(1)[OF nz])
  from trunc_nonneg(2)[OF assms(2)] float_to_int32_nonneg(2)[OF assms(2,3)]
  have "unat (int32_to_size_t (trunc x)) = nat (trunc x)"
    by (intro unat_int32_to_size_t) simp_all
  then have e: "unat (min (int32_to_size_t (trunc x)) (max_size s - 1)) =
           min (nat (trunc x)) (unat (max_size s) - 1)"
    by (simp only: clamp_is_min(2)[OF nz])
  from valid_unat(3)[OF assms(1)] have "unat (max_size s) + unat (10 :: size_t) < 2 ^ 32"
    by simp
  then have "unat (max_size s + 10) = unat (max_size s) + 10"
    by (simp add: unat_add2)
  then have "\<not> max_size s + 10 < max_size s"
    by (simp add: word_less_nat_alt)
  then have f: "delay (SetDelay s (max_size s + 10)) = max_size s - 1"
    by (simp add: SetDelay_def)
  show ?thesis by (intro conjI a b c e f)
qed

theorem SetDelay_saturates_witness:
  "valid \<lparr>frac_m = Some (1/2), write_ptr = 1, delay = 1, line = [0, 0, 0, 0], max_size = 4\<rparr> \<and>
   SetDelay \<lparr>frac_m = Some (1/2), write_ptr = 1, delay = 1, line = [0, 0, 0, 0], max_size = 4\<rparr> 9 =
     \<lparr>frac_m = Some 0, write_ptr = 1, delay = 3, line = [0, 0, 0, 0], max_size = 4\<rparr> \<and>
   (0 :: real) \<le> 5/2 \<and> (5/2 :: real) < 2 ^ 31 \<and>
   SetDelay_float \<lparr>frac_m = Some (1/2), write_ptr = 1, delay = 1, line = [0, 0, 0, 0], max_size = 4\<rparr> (5/2) =
     Some \<lparr>frac_m = Some (1/2), write_ptr = 1, delay = 2, line = [0, 0, 0, 0], max_size = 4\<rparr>"
proof -
  have v: "valid \<lparr>frac_m = Some (1/2), write_ptr = 1, delay = 1, line = [0, 0, 0, 0], max_size = 4\<rparr>"
    by (simp add: valid_def)
  have t: "trunc (5/2) = 2"
    by (simp add: trunc_def)
  from SetDelay_saturates[OF v, of "5/2" 9] show ?thesis
    using v by (simp add: t int32_to_size_t_def)
qed

text \<open>
  Claim C4 as stated, for every non-negative argument, fails: the integer part of
  \<open>2 ^ 31 = 2147483648\<close> does not fit an \<^verbatim>\<open>int32_t\<close>, the cast in
  \<^verbatim>\<open>SetDelay(float)\<close> is undefined there and no delay is stored.
\<close>

theorem SetDelay_float_huge_counterexample:
  "SetDelay_float \<lparr>frac_m = Some 0, write_ptr = 0, delay = 1, line = [0, 0, 0, 0], max_size = 4\<rparr> 2147483648 = None"
proof -
  have "(2 :: real) ^ 31 \<le> 2147483648" by simp
  then have "float_to_int32 2147483648 = None"
    by (rule float_to_int32_too_big)
  then show ?thesis
    by (simp only: SetDelay_float_def Option.bind.bind_lzero)
qed

section \<open>Read at an arbitrary delay\<close>

text \<open>The two ring positions of a linear read at integer delay \<open>t\<close>.\<close>

lemma fetch_at_delay:
  assumes v: "valid s" and t: "0 \<le> t" "t < 2 ^ 31"
  shows "fetch s (write_ptr s + int32_to_size_t t) =
           Some (line s ! ((unat (write_ptr s) + nat t) mod unat (max_size s)))"
    and "fetch s (write_ptr s + int32_to_size_t t + 1) =
           Some (line s ! ((unat (write_ptr s) + nat t + 1) mod unat (max_size s)))"
proof -
  from t have u: "unat (int32_to_size_t t) = nat t"
    by (intro unat_int32_to_size_t) simp_all
  from t have "nat t < 2 ^ 31"
    by (simp add: nat_less_iff)
  with valid_unat(3,4)[OF v] have small: "unat (write_ptr s) + unat (int32_to_size_t t) + 1 < 2 ^ 32"
    by (simp add: u)
  then have "unat (write_ptr s + int32_to_size_t t) = unat (write_ptr s) + nat t"
    by (simp add: unat_add2 u)
  then show "fetch s (write_ptr s + int32_to_size_t t) =
           Some (line s ! ((unat (write_ptr s) + nat t) mod unat (max_size s)))"
    by (rule fetch_nat[OF v])
  from small have "unat (write_ptr s + int32_to_size_t t + 1) = unat (write_ptr s) + nat t + 1"
    by (simp add: unat_add2_1 u)
  then show "fetch s (write_ptr s + int32_to_size_t t + 1) =
           Some (line s ! ((unat (write_ptr s) + nat t + 1) mod unat (max_size s)))"
    by (rule fetch_nat[OF v])
qed

lemma Read_float_valid:
  assumes v: "valid s" and d: "0 \<le> d" "d < 2 ^ 31"
  shows "Read_float s d =
     Some (line s ! ((unat (write_ptr s) + nat (trunc d)) mod unat (max_size s)) +
       (line s ! ((unat (write_ptr s) + nat (trunc d) + 1) mod unat (max_size s)) -
        line s ! ((unat (write_ptr s) + nat (trunc d)) mod unat (max_size s))) *
       (d - real_of_int (trunc d)))"
proof -
  note c = float_to_int32_nonneg[OF d]
  note f = fetch_at_delay[OF v trunc_nonneg(2)[OF d(1)] c(2)]
  show ?thesis
    by (simp only: Read_float_def c(1) f Option.bind.bind_lunit Let_def)
qed

lemma trunc_add_multiple:
  assumes "0 \<le> d"
  shows "trunc (d + real k * real m) = trunc d + int k * int m"
proof -
  have "d + real k * real m = d + real_of_int (int k * int m)"
    by simp
  moreover from assms have "0 \<le> d + real k * real m"
    by simp
  ultimately show ?thesis
    using assms by (simp only: trunc_def if_True floor_add_int)
qed

text \<open>
  Claim C5, as amended. \<^verbatim>\<open>Read(float)\<close> does not clamp its argument: in a valid state,
  for every \<open>d \<ge> 0\<close> and every \<open>k\<close> such that \<open>d + k * max_size < 2 ^ 31\<close> (the integer
  part of the argument fits the \<^verbatim>\<open>int32_t\<close> it is cast to), the read at
  \<open>d + k * max_size\<close> returns what the read at \<open>d\<close> returns, namely the interpolation
  between the slots at \<open>(write_ptr + i) mod max_size\<close> and \<open>(write_ptr + i + 1) mod max_size\<close>
  for the integer part \<open>i\<close> of \<open>d\<close>; the call changes no member of the state.
\<close>

theorem Read_float_aliases:
  assumes v: "valid s" and d: "0 \<le> d" and r: "d + real k * real (unat (max_size s)) < 2 ^ 31"
  shows "Read_float s (d + real k * real (unat (max_size s))) = Read_float s d \<and>
     Read_float s d =
       Some (line s ! ((unat (write_ptr s) + nat (trunc d)) mod unat (max_size s)) +
         (line s ! ((unat (write_ptr s) + nat (trunc d) + 1) mod unat (max_size s)) -
          line s ! ((unat (write_ptr s) + nat (trunc d)) mod unat (max_size s))) *
         (d - real_of_int (trunc d))) \<and>
     call s (Op_Read_float (d + real k * real (unat (max_size s)))) =
       Some (Read_float s d, s)"
proof -
  define m where "m = unat (max_size s)"
  define y where "y = d + real k * real m"
  have y0: "0 \<le> y" using d by (simp add: y_def)
  have "d \<le> y" by (simp add: y_def)
  moreover from r have y31: "y < 2 ^ 31" by (simp add: y_def m_def)
  ultimately have d31: "d < 2 ^ 31" by simp
  have ty: "trunc y = trunc d + int k * int m"
    unfolding y_def using d by (rule trunc_add_multiple)
  from trunc_nonneg(2)[OF d] have nty: "nat (trunc y) = nat (trunc d) + k * m"
    by (simp add: ty nat_add_distrib nat_mult_distrib)
  have fy: "y - real_of_int (trunc y) = d - real_of_int (trunc d)"
    unfolding ty by (simp add: y_def)
  have pa: "(unat (write_ptr s) + nat (trunc y)) mod m = (unat (write_ptr s) + nat (trunc d)) mod m"
  proof -
    have "unat (write_ptr s) + nat (trunc y) = unat (write_ptr s) + nat (trunc d) + k * m"
      by (simp add: nty)
    then show ?thesis by (simp only: mod_mult_self1)
  qed
  have pb: "(unat (write_ptr s) + nat (trunc y) + 1) mod m = (unat (write_ptr s) + nat (trunc d) + 1) mod m"
  proof -
    have "unat (write_ptr s) + nat (trunc y) + 1 = unat (write_ptr s) + nat (trunc d) + 1 + k * m"
      by (simp add: nty)
    then show ?thesis by (simp only: mod_mult_self1)
  qed
  have ry: "Read_float s y = Some (line s ! ((unat (write_ptr s) + nat (trunc y)) mod m) +
       (line s ! ((unat (write_ptr s) + nat (trunc y) + 1) mod m) -
        line s ! ((unat (write_ptr s) + nat (trunc y)) mod m)) *
       (y - real_of_int (trunc y)))"
    unfolding m_def using v y0 y31 by (rule Read_float_valid)
  have rd: "Read_float s d = Some (line s ! ((unat (write_ptr s) + nat (trunc d)) mod m) +
       (line s ! ((unat (write_ptr s) + nat (trunc d) + 1) mod m) -
        line s ! ((unat (write_ptr s) + nat (trunc d)) mod m)) *
       (d - real_of_int (trunc d)))"
    unfolding m_def using v d d31 by (rule Read_float_valid)
  have eq: "Read_float s y = Read_float s d"
    by (simp only: ry rd pa pb fy)
  have c: "call s (Op_Read_float y) = Some (Read_float s d, s)"
    by (simp add: eq rd)
  from eq rd c show ?thesis
    unfolding y_def m_def by (intro conjI)
qed

theorem Read_float_aliases_witness:
  "valid \<lparr>frac_m = Some 0, write_ptr = 1, delay = 1, line = [10, 20, 30, 40], max_size = 4\<rparr> \<and>
   (0 :: real) \<le> 1/2 \<and> 1/2 + real 3 * real (unat (4 :: size_t)) < 2 ^ 31 \<and>
   Read_float \<lparr>frac_m = Some 0, write_ptr = 1, delay = 1, line = [10, 20, 30, 40], max_size = 4\<rparr>
     (1/2 + real 3 * real (unat (4 :: size_t))) = Some 25"
proof -
  have v: "valid \<lparr>frac_m = Some 0, write_ptr = 1, delay = 1, line = [10, 20, 30, 40], max_size = 4\<rparr>"
    by (simp add: valid_def)
  have t: "trunc (1/2) = 0"
    by (simp add: trunc_def)
  have r: "1/2 + real 3 * real (unat (max_size
      \<lparr>frac_m = Some 0, write_ptr = 1, delay = 1, line = [10, 20, 30, 40], max_size = 4\<rparr>)) < 2 ^ 31"
    by simp
  from Read_float_aliases[OF v _ r] show ?thesis
    using v by (simp add: t)
qed

text \<open>
  Claim C5 as stated, for every \<open>k \<ge> 0\<close>, fails: in a ring of four slots the read at
  delay 0 returns a sample, while at \<open>0 + 536870912 * 4 = 2 ^ 31\<close> the cast of the
  argument to \<^verbatim>\<open>int32_t\<close> is undefined and the read returns nothing.
\<close>

theorem Read_float_aliases_counterexample:
  "Read_float \<lparr>frac_m = Some 0, write_ptr = 1, delay = 1, line = [10, 20, 30, 40], max_size = 4\<rparr> 0 = Some 20 \<and>
   Read_float \<lparr>frac_m = Some 0, write_ptr = 1, delay = 1, line = [10, 20, 30, 40], max_size = 4\<rparr>
     (0 + real 536870912 * real (unat (4 :: size_t))) = None"
proof -
  have v: "valid \<lparr>frac_m = Some 0, write_ptr = 1, delay = 1, line = [10, 20, 30, 40], max_size = 4\<rparr>"
    by (simp add: valid_def)
  have t: "trunc 0 = 0"
    by (simp add: trunc_def)
  have a: "Read_float \<lparr>frac_m = Some 0, write_ptr = 1, delay = 1, line = [10, 20, 30, 40], max_size = 4\<rparr> 0 = Some 20"
    using Read_float_valid[OF v, of 0] by (simp add: t)
  have "(2 :: real) ^ 31 \<le> 0 + real 536870912 * real (unat (4 :: size_t))"
    by simp
  then have "float_to_int32 (0 + real 536870912 * real (unat (4 :: size_t))) = None"
    by (rule float_to_int32_too_big)
  then have b: "Read_float \<lparr>frac_m = Some 0, write_ptr = 1, delay = 1, line = [10, 20, 30, 40], max_size = 4\<rparr>
     (0 + real 536870912 * real (unat (4 :: size_t))) = None"
    by (simp only: Read_float_def Option.bind.bind_lzero)
  from a b show ?thesis by (intro conjI)
qed

section \<open>The Hermite read\<close>

lemma size_t_of_int_sum:
  fixes wp m :: size_t
  shows "wp + int32_to_size_t t0 + m = word_of_int (int (unat wp) + t0 + int (unat m))"
  by (simp add: int32_to_size_t_def)

lemma size_t_to_int32_of_int:
  assumes "0 \<le> k" and "k < 2 ^ 31"
  shows "size_t_to_int32 (word_of_int k) = k"
proof -
  from assms have "signed_take_bit 31 k = k"
    by (intro signed_take_bit_int_eq_self) simp_all
  then show ?thesis
    by (simp add: size_t_to_int32_def sint_sbintrunc')
qed

lemma fetch_of_int:
  assumes v: "valid s" and k: "0 \<le> k" "k < 2 ^ 31"
  shows "fetch s (int32_to_size_t k) = Some (line s ! nat (k mod uint (max_size s)))"
proof -
  from k have "unat (int32_to_size_t k) = nat k"
    by (intro unat_int32_to_size_t) simp_all
  then have "fetch s (int32_to_size_t k) = Some (line s ! (nat k mod unat (max_size s)))"
    by (rule fetch_nat[OF v])
  moreover from k(1) have "nat k mod nat (uint (max_size s)) = nat (k mod uint (max_size s))"
    by (simp add: nat_mod_distrib)
  moreover have "nat (uint (max_size s)) = unat (max_size s)"
    by simp
  ultimately show ?thesis by simp
qed

lemma int32_in_range:
  assumes "0 \<le> k" and "k < 2 ^ 31"
  shows "int32 k = Some k"
  using assms by (simp add: int32_def INT32_MIN_def INT32_MAX_def)

lemma valid_uint:
  assumes "valid s"
  shows "0 < uint (max_size s)" and "uint (max_size s) < 2 ^ 29"
    and "uint (write_ptr s) < uint (max_size s)" and "int (unat (max_size s)) = uint (max_size s)"
proof -
  from valid_unat(1,3,4)[OF assms]
  have "int 0 < int (unat (max_size s))" "int (unat (max_size s)) < int (2 ^ 29)"
    "int (unat (write_ptr s)) < int (unat (max_size s))"
    by (simp_all only: of_nat_less_iff)
  then show "0 < uint (max_size s)" "uint (max_size s) < 2 ^ 29"
    "uint (write_ptr s) < uint (max_size s)"
    by simp_all
qed simp

lemma int32_window:
  fixes W t M :: int
  assumes "0 \<le> W" and "W < 2 ^ 29" and "M < 2 ^ 29" and "0 \<le> M"
    and "1 \<le> W + t + M" and "W + t + M + 2 < 2 ^ 31"
  shows "- (2 ^ 31) \<le> t" and "t \<le> 2 ^ 31 - 1"
  using assms by simp_all

lemma fetch_ring:
  assumes v: "valid s" and k: "0 \<le> T + uint (max_size s) + j"
    "T + uint (max_size s) + j < 2 ^ 31"
  shows "fetch s (int32_to_size_t (T + uint (max_size s) + j)) =
           Some (line s ! nat ((T + j) mod uint (max_size s)))"
proof -
  have "T + uint (max_size s) + j = T + j + uint (max_size s)"
    by simp
  then have "(T + uint (max_size s) + j) mod uint (max_size s) = (T + j) mod uint (max_size s)"
    by (simp only: mod_add_self2)
  with fetch_of_int[OF v k] show ?thesis by simp
qed

lemma ReadHermite_valid:
  assumes v: "valid s"
    and lo: "1 \<le> uint (write_ptr s) + trunc d + uint (max_size s)"
    and hi: "uint (write_ptr s) + trunc d + uint (max_size s) + 2 < 2 ^ 31"
  shows "ReadHermite s d =
     Some (hermite
       (line s ! nat ((uint (write_ptr s) + trunc d - 1) mod uint (max_size s)))
       (line s ! nat ((uint (write_ptr s) + trunc d) mod uint (max_size s)))
       (line s ! nat ((uint (write_ptr s) + trunc d + 1) mod uint (max_size s)))
       (line s ! nat ((uint (write_ptr s) + trunc d + 2) mod uint (max_size s)))
       (d - real_of_int (trunc d)))"
proof -
  define T where "T = uint (write_ptr s) + trunc d"
  define M where "M = uint (max_size s)"
  from lo hi have range: "1 \<le> T + M" "T + M + 2 < 2 ^ 31"
    by (simp_all add: T_def M_def)
  from valid_uint[OF v] have small: "uint (write_ptr s) < 2 ^ 29" "M < 2 ^ 29" "0 \<le> M"
    by (simp_all add: M_def)
  have "INT32_MIN \<le> trunc d" "trunc d \<le> INT32_MAX"
    unfolding INT32_MIN_def INT32_MAX_def
    using uint_ge_0[of "write_ptr s"] small range[unfolded T_def]
    by (rule int32_window)+
  then have c: "float_to_int32 d = Some (trunc d)"
    by (simp add: float_to_int32_def int32_def)
  have "write_ptr s + int32_to_size_t (trunc d) + max_size s = word_of_int (T + M)"
    by (simp add: T_def M_def int32_to_size_t_def)
  moreover from range have "size_t_to_int32 (word_of_int (T + M)) = T + M"
    by (intro size_t_to_int32_of_int) simp_all
  ultimately have t: "size_t_to_int32 (write_ptr s + int32_to_size_t (trunc d) + max_size s) = T + M"
    by simp
  from range have i: "int32 (T + M - 1) = Some (T + M - 1)" "int32 (T + M + 1) = Some (T + M + 1)"
    "int32 (T + M + 2) = Some (T + M + 2)"
    by (simp_all add: int32_in_range)
  from range have f0: "fetch s (int32_to_size_t (T + M)) = Some (line s ! nat (T mod M))"
    using fetch_ring[OF v, of T 0] by (simp add: M_def)
  from range have fm1: "fetch s (int32_to_size_t (T + M - 1)) = Some (line s ! nat ((T - 1) mod M))"
    using fetch_ring[OF v, of T "-1"] by (simp add: M_def)
  from range have f1: "fetch s (int32_to_size_t (T + M + 1)) = Some (line s ! nat ((T + 1) mod M))"
    using fetch_ring[OF v, of T 1] by (simp add: M_def)
  from range have f2: "fetch s (int32_to_size_t (T + M + 2)) = Some (line s ! nat ((T + 2) mod M))"
    using fetch_ring[OF v, of T 2] by (simp add: M_def)
  have "ReadHermite s d =
     Some (hermite (line s ! nat ((T - 1) mod M)) (line s ! nat (T mod M))
       (line s ! nat ((T + 1) mod M)) (line s ! nat ((T + 2) mod M)) (d - real_of_int (trunc d)))"
    by (simp only: ReadHermite_def c t i f0 fm1 f1 f2 Option.bind.bind_lunit Let_def)
  then show ?thesis
    by (simp only: T_def M_def)
qed

text \<open>
  Claim C6, as amended. In a valid state, for every delay \<open>d\<close> with integer part \<open>t0\<close>
  and fraction \<open>f = d - t0\<close> such that \<open>1 \<le> write_ptr + t0 + max_size\<close> and
  \<open>write_ptr + t0 + max_size + 2 < 2 ^ 31\<close> (the \<^verbatim>\<open>int32_t\<close> \<open>t\<close> of the code and its
  neighbours \<open>t - 1\<close>, \<open>t + 1\<close>, \<open>t + 2\<close> are non-negative and do not overflow; every
  \<open>d\<close> from 0 up to \<open>max_size\<close> qualifies), \<^verbatim>\<open>ReadHermite(d)\<close> fetches the slots at
  the ring positions \<open>t - 1\<close>, \<open>t\<close>, \<open>t + 1\<close>, \<open>t + 2\<close> modulo \<open>max_size\<close>, for
  \<open>t = write_ptr + t0\<close>, and returns \<open>((a * f - b_neg) * f + c) * f + x0\<close> with the
  coefficients of the claim.
\<close>

theorem ReadHermite_formula:
  assumes "valid s"
    and "1 \<le> uint (write_ptr s) + trunc d + uint (max_size s)"
    and "uint (write_ptr s) + trunc d + uint (max_size s) + 2 < 2 ^ 31"
  shows "let t = uint (write_ptr s) + trunc d;
             m = uint (max_size s);
             f = d - real_of_int (trunc d);
             xm1 = line s ! nat ((t - 1) mod m);
             x0 = line s ! nat (t mod m);
             x1 = line s ! nat ((t + 1) mod m);
             x2 = line s ! nat ((t + 2) mod m);
             c = (x1 - xm1) / 2;
             v = x0 - x1;
             w = c + v;
             a = w + v + (x2 - x0) / 2;
             b_neg = w + a
         in ReadHermite s d = Some (((a * f - b_neg) * f + c) * f + x0)"
  using ReadHermite_valid[OF assms] by (simp add: hermite_def Let_def)

theorem ReadHermite_formula_witness:
  "valid \<lparr>frac_m = Some 0, write_ptr = 1, delay = 1, line = [10, 20, 30, 40], max_size = 4\<rparr> \<and>
   1 \<le> uint (1 :: size_t) + trunc (5/2) + uint (4 :: size_t) \<and>
   uint (1 :: size_t) + trunc (5/2) + uint (4 :: size_t) + 2 < 2 ^ 31 \<and>
   ReadHermite \<lparr>frac_m = Some 0, write_ptr = 1, delay = 1, line = [10, 20, 30, 40], max_size = 4\<rparr> (5/2) =
     Some 25"
proof -
  have v: "valid \<lparr>frac_m = Some 0, write_ptr = 1, delay = 1, line = [10, 20, 30, 40], max_size = 4\<rparr>"
    by (simp add: valid_def)
  have t: "trunc (5/2) = 2"
    by (simp add: trunc_def)
  from ReadHermite_formula[OF v, of "5/2"] show ?thesis
    using v by (simp add: t Let_def)
qed

text \<open>
  Claim C6 as stated, for every delay value, fails: in a ring of three slots with the
  cursor at 0, the delay \<open>-7/2\<close> has integer part \<open>-3\<close>, the code computes \<open>t = 0\<close> and
  converts \<open>t - 1 = -1\<close> to the \<^verbatim>\<open>size_t\<close> \<open>2 ^ 32 - 1\<close>, whose remainder by 3 is 0, so
  it fetches slot 0 where the ring position \<open>(0 - 3 - 1) mod 3\<close> is slot 2. The result is
  \<open>85/8\<close>; the formula of the claim on the four ring positions gives \<open>175/8\<close>.
\<close>

theorem ReadHermite_formula_counterexample:
  "ReadHermite \<lparr>frac_m = Some 0, write_ptr = 0, delay = 1, line = [10, 20, 30], max_size = 3\<rparr> (- (7/2)) =
     Some (85/8) \<and>
   ReadHermite \<lparr>frac_m = Some 0, write_ptr = 0, delay = 1, line = [10, 20, 30], max_size = 3\<rparr> (- (7/2)) \<noteq>
     Some (hermite
           ([10, 20, 30] ! nat ((uint (0 :: size_t) + trunc (- (7/2)) - 1) mod uint (3 :: size_t)))
           ([10, 20, 30] ! nat ((uint (0 :: size_t) + trunc (- (7/2))) mod uint (3 :: size_t)))
           ([10, 20, 30] ! nat ((uint (0 :: size_t) + trunc (- (7/2)) + 1) mod uint (3 :: size_t)))
           ([10, 20, 30] ! nat ((uint (0 :: size_t) + trunc (- (7/2)) + 2) mod uint (3 :: size_t)))
           (- (7/2) - real_of_int (trunc (- (7/2)))))"
proof -
  have t: "trunc (- (7/2)) = - 3"
    by (simp add: trunc_def)
  have c: "float_to_int32 (- (7/2)) = Some (- 3)"
    by (simp add: float_to_int32_def t int32_def INT32_MIN_def INT32_MAX_def)
  have i: "int32 (- 1) = Some (- 1)" "int32 1 = Some 1" "int32 2 = Some 2"
    by (simp_all add: int32_def INT32_MIN_def INT32_MAX_def)
  have z: "size_t_to_int32 (int32_to_size_t (- 3) + 3) = 0"
    by (simp add: size_t_to_int32_def int32_to_size_t_def)
  have f: "fetch \<lparr>frac_m = Some 0, write_ptr = 0, delay = 1, line = [10, 20, 30], max_size = 3\<rparr>
             (int32_to_size_t (- 1)) = Some 10"
    "fetch \<lparr>frac_m = Some 0, write_ptr = 0, delay = 1, line = [10, 20, 30], max_size = 3\<rparr>
             (int32_to_size_t 0) = Some 10"
    "fetch \<lparr>frac_m = Some 0, write_ptr = 0, delay = 1, line = [10, 20, 30], max_size = 3\<rparr>
             (int32_to_size_t 1) = Some 20"
    "fetch \<lparr>frac_m = Some 0, write_ptr = 0, delay = 1, line = [10, 20, 30], max_size = 3\<rparr>
             (int32_to_size_t 2) = Some 30"
    by (simp_all add: fetch_def int32_to_size_t_def)
  have a: "ReadHermite \<lparr>frac_m = Some 0, write_ptr = 0, delay = 1, line = [10, 20, 30], max_size = 3\<rparr>
      (- (7/2)) = Some (85/8)"
    by (simp add: ReadHermite_def c z i f hermite_def Let_def)
  have b: "hermite ([10, 20, 30] ! nat ((uint (0 :: size_t) + trunc (- (7/2)) - 1) mod uint (3 :: size_t)))
           ([10, 20, 30] ! nat ((uint (0 :: size_t) + trunc (- (7/2))) mod uint (3 :: size_t)))
           ([10, 20, 30] ! nat ((uint (0 :: size_t) + trunc (- (7/2)) + 1) mod uint (3 :: size_t)))
           ([10, 20, 30] ! nat ((uint (0 :: size_t) + trunc (- (7/2)) + 2) mod uint (3 :: size_t)))
           (- (7/2) - real_of_int (trunc (- (7/2)))) = 175/8"
    by (simp add: t hermite_def Let_def)
  show ?thesis
    unfolding a b by simp
qed

section \<open>Reset\<close>

lemma reset_loop_result:
  assumes "unat i \<le> unat m" and "unat m \<le> length l"
  shows "reset_loop l i m =
     Some (take (unat i) l @ replicate (unat m - unat i) 0 @ drop (unat m) l)"
  using assms
proof (induction l i m rule: reset_loop.induct)
  case (1 l i m)
  show ?case
  proof (cases "i < m")
    case False
    with "1.prems" have "unat i = unat m"
      by (simp add: word_less_nat_alt)
    with False show ?thesis
      by (subst reset_loop.simps) simp
  next
    case True
    then have lt: "unat i < unat m"
      by (simp add: word_less_nat_alt)
    from True have suc: "unat (i + 1) = Suc (unat i)"
      by unat_arith
    from lt "1.prems" have inb: "unat i < length l"
      by simp
    from lt suc have le: "unat (i + 1) \<le> unat m"
      by simp
    have len: "unat m \<le> length (l[unat i := 0])"
      using "1.prems" by simp
    have ih: "reset_loop (l[unat i := 0]) (i + 1) m =
        Some (take (unat (i + 1)) (l[unat i := 0]) @ replicate (unat m - unat (i + 1)) 0 @
              drop (unat m) (l[unat i := 0]))"
      using True inb le len by (rule "1.IH")
    have a: "take (unat (i + 1)) (l[unat i := 0]) = take (unat i) l @ [0]"
      using inb by (simp add: suc take_Suc_conv_app_nth)
    have b: "drop (unat m) (l[unat i := 0]) = drop (unat m) l"
      using lt by simp
    have c: "replicate (unat m - unat i) (0 :: real) = 0 # replicate (unat m - unat (i + 1)) 0"
      using lt by (simp add: suc Suc_diff_Suc replicate_Suc [symmetric] del: replicate_Suc)
    from True inb have "reset_loop l i m = reset_loop (l[unat i := 0]) (i + 1) m"
      by (subst reset_loop.simps) simp
    then show ?thesis
      by (simp only: ih a b c append_assoc append_Cons append_Nil)
  qed
qed

lemma Reset_result:
  assumes "unat (max_size s) \<le> length (line s)"
  shows "Reset s = Some (s\<lparr>line := replicate (unat (max_size s)) 0 @ drop (unat (max_size s)) (line s),
                          write_ptr := 0, delay := 1\<rparr>)"
  using reset_loop_result[of 0 "max_size s" "line s"] assms by (simp add: Reset_def)

lemma Init_result:
  assumes "unat n \<le> length buf"
  shows "Init s buf n = Some (s\<lparr>line := replicate (unat n) 0 @ drop (unat n) buf,
                                 max_size := n, write_ptr := 0, delay := 1\<rparr>)"
  using Reset_result[of "s\<lparr>line := buf, max_size := n\<rparr>"] assms by (simp add: Init_def)














section \<open>Both interpolations are exact on a linear ramp\<close>

lemma int32_window2:
  fixes W t :: int
  assumes "0 \<le> W" and "W < 2 ^ 29" and "0 \<le> W + t" and "W + t < 2 ^ 31"
  shows "- (2 ^ 31) \<le> t" and "t \<le> 2 ^ 31 - 1"
  using assms by simp_all

lemma float_to_int32_window:
  assumes v: "valid s" and lo: "0 \<le> uint (write_ptr s) + trunc d"
    and hi: "uint (write_ptr s) + trunc d < 2 ^ 31"
  shows "float_to_int32 d = Some (trunc d)"
proof -
  from valid_uint(2,3)[OF v] have "uint (write_ptr s) < 2 ^ 29" by simp
  with uint_ge_0[of "write_ptr s"] have "- (2 ^ 31) \<le> trunc d" "trunc d \<le> 2 ^ 31 - 1"
    using lo hi by (rule int32_window2)+
  then show ?thesis
    by (simp add: float_to_int32_def int32_def INT32_MIN_def INT32_MAX_def)
qed

lemma Read_float_window:
  assumes v: "valid s" and lo: "0 \<le> uint (write_ptr s) + trunc d"
    and hi: "uint (write_ptr s) + trunc d + 1 < 2 ^ 31"
  shows "Read_float s d =
     Some (line s ! nat ((uint (write_ptr s) + trunc d) mod uint (max_size s)) +
       (line s ! nat ((uint (write_ptr s) + trunc d + 1) mod uint (max_size s)) -
        line s ! nat ((uint (write_ptr s) + trunc d) mod uint (max_size s))) *
       (d - real_of_int (trunc d)))"
proof -
  define T where "T = uint (write_ptr s) + trunc d"
  from lo hi have range: "0 \<le> T" "T < 2 ^ 31" "0 \<le> T + 1" "T + 1 < 2 ^ 31"
    by (simp_all add: T_def)
  from v lo range(2) have c: "float_to_int32 d = Some (trunc d)"
    unfolding T_def by (rule float_to_int32_window)
  have a: "write_ptr s + int32_to_size_t (trunc d) = int32_to_size_t T"
    by (simp add: T_def int32_to_size_t_def)
  have b: "int32_to_size_t T + 1 = int32_to_size_t (T + 1)"
    by (simp add: int32_to_size_t_def)
  note f = fetch_of_int[OF v range(1,2)] fetch_of_int[OF v range(3,4)]
  have "Read_float s d =
     Some (line s ! nat (T mod uint (max_size s)) +
       (line s ! nat ((T + 1) mod uint (max_size s)) - line s ! nat (T mod uint (max_size s))) *
       (d - real_of_int (trunc d)))"
    by (simp only: Read_float_def c a b f Option.bind.bind_lunit Let_def)
  then show ?thesis
    by (simp only: T_def)
qed

lemma hermite_linear:
  "hermite (c0 + c1 * (t - 1)) (c0 + c1 * t) (c0 + c1 * (t + 1)) (c0 + c1 * (t + 2)) f =
     c0 + c1 * (t + f)"
  by (simp add: hermite_def Let_def algebra_simps)

text \<open>
  Claim C8, as amended. Let \<open>t0\<close> be the integer part of the delay \<open>d\<close> (rounded
  towards zero), with \<open>0 \<le> write_ptr + t0\<close> and \<open>write_ptr + t0 + max_size + 2 < 2 ^ 31\<close>
  (the sums of the code neither wrap nor overflow; every \<open>d\<close> from 0 up to \<open>max_size\<close>
  qualifies). Let the ring hold a linear ramp across the fetched neighbourhood: the slot at
  the ring position \<open>(write_ptr + i) mod max_size\<close> holds \<open>c0 + c1 * i\<close> for the four delays
  \<open>i = t0 - 1, t0, t0 + 1, t0 + 2\<close>. Then \<^verbatim>\<open>Read(d)\<close> and \<^verbatim>\<open>ReadHermite(d)\<close> both return
  the value \<open>c0 + c1 * d\<close> of the ramp at the fractional delay \<open>d\<close>, exactly (sample
  arithmetic on the real numbers). The ring positions are reduced modulo \<open>max_size\<close>, so
  the four slots may lie anywhere in the array, also across its end.
\<close>

theorem linear_ramp_exact:
  assumes "valid s"
    and "t0 = (if 0 \<le> d then \<lfloor>d\<rfloor> else \<lceil>d\<rceil>)"
    and "0 \<le> uint (write_ptr s) + t0"
    and "uint (write_ptr s) + t0 + uint (max_size s) + 2 < 2 ^ 31"
    and "\<forall>j\<in>{- 1, 0, 1, 2}.
           line s ! nat ((uint (write_ptr s) + t0 + j) mod uint (max_size s)) =
             c0 + c1 * real_of_int (t0 + j)"
  shows "Read_float s d = Some (c0 + c1 * d) \<and> ReadHermite s d = Some (c0 + c1 * d)"
proof -
  define T where "T = uint (write_ptr s) + trunc d"
  define M where "M = uint (max_size s)"
  define t where "t = real_of_int (trunc d)"
  from assms(2) have t0: "t0 = trunc d"
    by (simp add: trunc_def)
  from assms(3,4) have T: "0 \<le> T" "T + M + 2 < 2 ^ 31"
    by (simp_all add: T_def M_def t0)
  from valid_uint(1)[OF assms(1)] have M: "0 < M"
    by (simp add: M_def)
  from assms(5) have x: "line s ! nat ((T - 1) mod M) = c0 + c1 * (t - 1)"
    "line s ! nat (T mod M) = c0 + c1 * t"
    "line s ! nat ((T + 1) mod M) = c0 + c1 * (t + 1)"
    "line s ! nat ((T + 2) mod M) = c0 + c1 * (t + 2)"
    by (simp_all add: T_def M_def t_def t0)
  from T M have "0 \<le> T" "T + 1 < 2 ^ 31"
    by simp_all
  then have "Read_float s d =
      Some (line s ! nat (T mod M) + (line s ! nat ((T + 1) mod M) - line s ! nat (T mod M)) * (d - t))"
    unfolding T_def M_def t_def by (rule Read_float_window[OF assms(1)])
  then have "Read_float s d = Some (c0 + c1 * t + (c0 + c1 * (t + 1) - (c0 + c1 * t)) * (d - t))"
    by (simp only: x)
  moreover have "c0 + c1 * t + (c0 + c1 * (t + 1) - (c0 + c1 * t)) * (d - t) = c0 + c1 * d"
    by (simp add: algebra_simps)
  ultimately have lin: "Read_float s d = Some (c0 + c1 * d)"
    by simp
  from T M have "1 \<le> T + M" "T + M + 2 < 2 ^ 31"
    by simp_all
  then have "ReadHermite s d =
      Some (hermite (line s ! nat ((T - 1) mod M)) (line s ! nat (T mod M))
        (line s ! nat ((T + 1) mod M)) (line s ! nat ((T + 2) mod M)) (d - t))"
    unfolding T_def M_def t_def by (rule ReadHermite_valid[OF assms(1)])
  then have "ReadHermite s d = Some (c0 + c1 * (t + (d - t)))"
    by (simp only: x hermite_linear)
  then have "ReadHermite s d = Some (c0 + c1 * d)"
    by simp
  with lin show ?thesis by simp
qed

theorem linear_ramp_exact_witness:
  "valid \<lparr>frac_m = Some 0, write_ptr = 6, delay = 1, line = [0, 10, 20, 30, 40, 50, 60, 70], max_size = 8\<rparr> \<and>
   (4 :: int) = (if (0 :: real) \<le> 9/2 then \<lfloor>9/2 :: real\<rfloor> else \<lceil>9/2 :: real\<rceil>) \<and>
   0 \<le> uint (6 :: size_t) + 4 \<and>
   uint (6 :: size_t) + 4 + uint (8 :: size_t) + 2 < 2 ^ 31 \<and>
   [0, 10, 20, 30, 40, 50, 60, 70] ! nat ((uint (6 :: size_t) + 4 + (- 1)) mod uint (8 :: size_t)) =
     - 20 + 10 * real_of_int (4 + (- 1)) \<and>
   [0, 10, 20, 30, 40, 50, 60, 70] ! nat ((uint (6 :: size_t) + 4 + 0) mod uint (8 :: size_t)) =
     - 20 + 10 * real_of_int (4 + 0) \<and>
   [0, 10, 20, 30, 40, 50, 60, 70] ! nat ((uint (6 :: size_t) + 4 + 1) mod uint (8 :: size_t)) =
     - 20 + 10 * real_of_int (4 + 1) \<and>
   [0, 10, 20, 30, 40, 50, 60, 70] ! nat ((uint (6 :: size_t) + 4 + 2) mod uint (8 :: size_t)) =
     - 20 + 10 * real_of_int (4 + 2) \<and>
   Read_float \<lparr>frac_m = Some 0, write_ptr = 6, delay = 1, line = [0, 10, 20, 30, 40, 50, 60, 70], max_size = 8\<rparr>
     (9/2) = Some 25 \<and>
   ReadHermite \<lparr>frac_m = Some 0, write_ptr = 6, delay = 1, line = [0, 10, 20, 30, 40, 50, 60, 70], max_size = 8\<rparr>
     (9/2) = Some 25"
proof -
  have v: "valid \<lparr>frac_m = Some 0, write_ptr = 6, delay = 1, line = [0, 10, 20, 30, 40, 50, 60, 70], max_size = 8\<rparr>"
    by (simp add: valid_def)
  have t: "(4 :: int) = (if (0 :: real) \<le> 9/2 then \<lfloor>9/2 :: real\<rfloor> else \<lceil>9/2 :: real\<rceil>)"
    by simp
  have h: "\<forall>j\<in>{- 1, 0, 1, 2}.
      line \<lparr>frac_m = Some 0, write_ptr = 6, delay = 1, line = [0, 10, 20, 30, 40, 50, 60, 70 :: real],
              max_size = 8\<rparr> !
        nat ((uint (write_ptr \<lparr>frac_m = Some 0, write_ptr = 6, delay = 1,
                line = [0, 10, 20, 30, 40, 50, 60, 70 :: real], max_size = 8\<rparr>) + 4 + j) mod
             uint (max_size \<lparr>frac_m = Some 0, write_ptr = 6, delay = 1,
                line = [0, 10, 20, 30, 40, 50, 60, 70 :: real], max_size = 8\<rparr>)) =
        - 20 + 10 * real_of_int (4 + j)"
    by simp
  from linear_ramp_exact[OF v t _ _ h] show ?thesis
    using v by simp
qed

text \<open>
  Claim C8 as stated, for every fractional delay, fails beyond the \<^verbatim>\<open>int32_t\<close> range: let a
  ring of eight slots hold the ramp \<open>10 * p\<close> at slot \<open>p\<close> and let the cursor be 2. The read
  at delay \<open>2 ^ 31 = 2147483648\<close> aims at the ring positions \<open>(2 + 2 ^ 31 + j) mod 8 = 2 + j\<close>,
  which hold \<open>c0 + 10 * (2 ^ 31 + j)\<close> for \<open>c0 = - 21474836460\<close>, and the value of this ramp
  at the delay is 20; but the cast of the delay to \<^verbatim>\<open>int32_t\<close> is undefined and neither
  read returns it.
\<close>

theorem linear_ramp_exact_counterexample:
  "[0, 10, 20, 30, 40, 50, 60, 70] ! nat ((uint (2 :: size_t) + 2147483648 + (- 1)) mod uint (8 :: size_t)) =
     - 21474836460 + 10 * real_of_int (2147483648 + (- 1)) \<and>
   [0, 10, 20, 30, 40, 50, 60, 70] ! nat ((uint (2 :: size_t) + 2147483648 + 0) mod uint (8 :: size_t)) =
     - 21474836460 + 10 * real_of_int (2147483648 + 0) \<and>
   [0, 10, 20, 30, 40, 50, 60, 70] ! nat ((uint (2 :: size_t) + 2147483648 + 1) mod uint (8 :: size_t)) =
     - 21474836460 + 10 * real_of_int (2147483648 + 1) \<and>
   [0, 10, 20, 30, 40, 50, 60, 70] ! nat ((uint (2 :: size_t) + 2147483648 + 2) mod uint (8 :: size_t)) =
     - 21474836460 + 10 * real_of_int (2147483648 + 2) \<and>
   Read_float \<lparr>frac_m = Some 0, write_ptr = 2, delay = 1, line = [0, 10, 20, 30, 40, 50, 60, 70], max_size = 8\<rparr>
     2147483648 = None \<and>
   ReadHermite \<lparr>frac_m = Some 0, write_ptr = 2, delay = 1, line = [0, 10, 20, 30, 40, 50, 60, 70], max_size = 8\<rparr>
     2147483648 = None \<and>
   Read_float \<lparr>frac_m = Some 0, write_ptr = 2, delay = 1, line = [0, 10, 20, 30, 40, 50, 60, 70], max_size = 8\<rparr>
     2147483648 \<noteq> Some (- 21474836460 + 10 * 2147483648)"
proof -
  have "(2 :: real) ^ 31 \<le> 2147483648" by simp
  then have c: "float_to_int32 2147483648 = None"
    by (rule float_to_int32_too_big)
  have a: "Read_float \<lparr>frac_m = Some 0, write_ptr = 2, delay = 1, line = [0, 10, 20, 30, 40, 50, 60, 70],
      max_size = 8\<rparr> 2147483648 = None"
    by (simp only: Read_float_def c Option.bind.bind_lzero)
  have b: "ReadHermite \<lparr>frac_m = Some 0, write_ptr = 2, delay = 1, line = [0, 10, 20, 30, 40, 50, 60, 70],
      max_size = 8\<rparr> 2147483648 = None"
    by (simp only: ReadHermite_def c Option.bind.bind_lzero)
  show ?thesis
    unfolding a b by simp
qed

section \<open>The invariants of the data model\<close>

lemma one_less_size:
  fixes m :: size_t
  assumes "1 < m"
  shows "m \<noteq> 0" and "1 < unat m" and "unat (m - 1) = unat m - 1"
proof -
  from assms show "1 < unat m"
    by (simp add: word_less_nat_alt)
  then show "m \<noteq> 0"
    by auto
  then show "unat (m - 1) = unat m - 1"
    by (simp add: unat_minus_one)
qed

lemma clamp_between:
  fixes d m :: size_t
  assumes "1 < m" and "1 \<le> d"
  shows "1 \<le> (if d < m then d else m - 1)" and "(if d < m then d else m - 1) \<le> m - 1"
proof -
  note m = one_less_size(2,3)[OF assms(1)]
  from m have "1 \<le> unat (m - 1)"
    by simp
  with assms(2) show "1 \<le> (if d < m then d else m - 1)"
    by (simp add: word_le_nat_alt)
  have "unat d \<le> unat m - 1" if "unat d < unat m"
    using that by arith
  with m(2) show "(if d < m then d else m - 1) \<le> m - 1"
    by (simp add: word_le_nat_alt word_less_nat_alt)
qed

lemma one_le_int32_to_size_t:
  assumes "1 \<le> d" and "float_to_int32 d = Some i"
  shows "1 \<le> int32_to_size_t i"
proof -
  from assms(2) have i: "i = trunc d" "i \<le> INT32_MAX"
    by (auto simp: float_to_int32_def int32_def split: if_splits)
  from assms(1) have "1 \<le> \<lfloor>d\<rfloor>"
    by (simp add: le_floor_iff)
  with assms(1) i(1) have "1 \<le> i"
    by (simp add: trunc_def)
  moreover from i(2) have "i < 2 ^ 32"
    by (simp add: INT32_MAX_def)
  ultimately have "unat (int32_to_size_t i) = nat i" "1 \<le> nat i"
    by (simp_all add: unat_int32_to_size_t)
  then show ?thesis
    by (simp add: word_le_nat_alt)
qed

lemma Reset_invariants:
  assumes "1 < max_size s" and "Reset s = Some s'"
  shows "invariants s' \<and> max_size s' = max_size s"
proof -
  from assms(2) obtain l where s': "s' = s\<lparr>line := l, write_ptr := 0, delay := 1\<rparr>"
    by (auto simp: Reset_def Option.bind_eq_Some_conv)
  from one_less_size[OF assms(1)] have "0 < max_size s" "1 \<le> max_size s - 1"
    by (simp_all add: word_less_nat_alt word_le_nat_alt)
  then show ?thesis
    by (simp add: s' invariants_def)
qed

lemma Write_invariants:
  assumes "invariants s" and "Write s x = Some s'"
  shows "invariants s' \<and> max_size s' = max_size s"
proof -
  from assms(2) have nz: "max_size s \<noteq> 0"
    and s': "s' = s\<lparr>line := (line s)[unat (write_ptr s) := x],
                     write_ptr := (write_ptr s - 1 + max_size s) mod max_size s\<rparr>"
    by (auto simp: Write_def split: if_splits)
  from nz have "(write_ptr s - 1 + max_size s) mod max_size s < max_size s"
    by (simp add: word_mod_less_divisor word_neq_0_conv)
  with assms(1) show ?thesis
    by (simp add: s' invariants_def)
qed

lemma call_invariants:
  assumes i: "invariants s" and m: "1 < max_size s" and ok: "delay_arg_ok c"
    and c: "call s c = Some (y, s')"
  shows "invariants s' \<and> max_size s' = max_size s"
proof (cases c)
  case Op_Reset
  with c m show ?thesis
    by (auto simp: Option.bind_eq_Some_conv dest: Reset_invariants)
next
  case (Op_SetDelay d)
  with ok have "1 \<le> d" by simp
  from clamp_between[OF m this] i c Op_SetDelay show ?thesis
    by (auto simp: invariants_def SetDelay_def)
next
  case (Op_SetDelay_float d)
  with ok have d: "1 \<le> d" by simp
  from c Op_SetDelay_float obtain k where k: "float_to_int32 d = Some k"
    and s': "s' = s\<lparr>frac_m := Some (d - real_of_int k),
       delay := (if int32_to_size_t k < max_size s then int32_to_size_t k else max_size s - 1)\<rparr>"
    by (auto simp: SetDelay_float_def Option.bind_eq_Some_conv)
  from d k have "1 \<le> int32_to_size_t k"
    by (rule one_le_int32_to_size_t)
  from clamp_between[OF m this] i show ?thesis
    by (simp add: s' invariants_def)
next
  case (Op_Write x)
  with c i show ?thesis
    by (auto simp: Option.bind_eq_Some_conv dest: Write_invariants)
next
  case Op_Read
  with c i show ?thesis by (auto simp: Option.bind_eq_Some_conv)
next
  case (Op_Read_float d)
  with c i show ?thesis by (auto simp: Option.bind_eq_Some_conv)
next
  case (Op_ReadHermite d)
  with c i show ?thesis by (auto simp: Option.bind_eq_Some_conv)
next
  case (Op_Allpass x d g)
  with c i show ?thesis
    by (auto simp: Allpass_def Let_def Option.bind_eq_Some_conv dest: Write_invariants)
qed

lemma run_invariants:
  assumes "invariants s" and "1 < max_size s" and "\<forall>c\<in>set cs. delay_arg_ok c"
    and "run s cs = Some s'"
  shows "invariants s' \<and> max_size s' = max_size s"
  using assms
proof (induction cs arbitrary: s)
  case Nil
  then show ?case by simp
next
  case (Cons c cs)
  from Cons.prems(4) obtain y s1 where c: "call s c = Some (y, s1)" and r: "run s1 cs = Some s'"
    by (auto simp: Option.bind_eq_Some_conv)
  from Cons.prems(3) have ok: "delay_arg_ok c" and oks: "\<forall>c\<in>set cs. delay_arg_ok c"
    by simp_all
  from call_invariants[OF Cons.prems(1,2) ok c] have s1: "invariants s1" "max_size s1 = max_size s"
    by simp_all
  with Cons.prems(2) have "1 < max_size s1" by simp
  from Cons.IH[OF s1(1) this oks r] s1(2) show ?case by simp
qed

text \<open>
  Claim C9, as amended. Let a delay line be initialised by \<^verbatim>\<open>Init\<close> with a capacity of at
  least 2. In every state reached from there by a sequence of calls of \<^verbatim>\<open>Write\<close>,
  \<^verbatim>\<open>Read\<close>, \<^verbatim>\<open>ReadHermite\<close>, \<^verbatim>\<open>Allpass\<close>, \<^verbatim>\<open>Reset\<close> and \<^verbatim>\<open>SetDelay\<close> whose delay
  arguments are at least 1, the write cursor is below \<open>max_size\<close> and the stored delay is
  between 1 and \<open>max_size - 1\<close>; \<open>max_size\<close> is still the capacity given to \<^verbatim>\<open>Init\<close>.
\<close>

theorem invariants_reachable:
  assumes "Init s buf n = Some s0" and "1 < n" and "\<forall>c\<in>set cs. delay_arg_ok c"
    and "run s0 cs = Some s'"
  shows "write_ptr s' < max_size s' \<and> 1 \<le> delay s' \<and> delay s' \<le> max_size s' - 1 \<and>
         max_size s' = n"
proof -
  from assms(1) have r: "Reset (s\<lparr>line := buf, max_size := n\<rparr>) = Some s0"
    by (simp add: Init_def)
  from assms(2) have "1 < max_size (s\<lparr>line := buf, max_size := n\<rparr>)"
    by simp
  from Reset_invariants[OF this r] have s0: "invariants s0" "max_size s0 = n"
    by simp_all
  with assms(2) have "1 < max_size s0"
    by simp
  from run_invariants[OF s0(1) this assms(3,4)] s0(2) show ?thesis
    by (auto simp: invariants_def)
qed

theorem invariants_reachable_witness:
  "Init \<lparr>frac_m = Some (1/2), write_ptr = 5, delay = 9, line = [], max_size = 0\<rparr> [7, 7, 7, 7] 4 =
     Some \<lparr>frac_m = Some (1/2), write_ptr = 0, delay = 1, line = [0, 0, 0, 0], max_size = 4\<rparr> \<and>
   (1 :: size_t) < 4 \<and>
   delay_arg_ok (Op_SetDelay 9) \<and> delay_arg_ok (Op_Write 3) \<and> delay_arg_ok Op_Read \<and>
   run \<lparr>frac_m = Some (1/2), write_ptr = 0, delay = 1, line = [0, 0, 0, 0], max_size = 4\<rparr>
     [Op_SetDelay 9, Op_Write 3, Op_Read] =
     Some \<lparr>frac_m = Some 0, write_ptr = 3, delay = 3, line = [3, 0, 0, 0], max_size = 4\<rparr> \<and>
   write_ptr \<lparr>frac_m = Some 0, write_ptr = 3, delay = 3, line = [3, 0, 0, 0], max_size = 4\<rparr> <
     max_size \<lparr>frac_m = Some 0, write_ptr = 3, delay = 3, line = [3, 0, 0, 0], max_size = 4\<rparr> \<and>
   1 \<le> delay \<lparr>frac_m = Some 0, write_ptr = 3, delay = 3, line = [3, 0, 0, 0], max_size = 4\<rparr> \<and>
   delay \<lparr>frac_m = Some 0, write_ptr = 3, delay = 3, line = [3, 0, 0, 0], max_size = 4\<rparr> \<le>
     max_size \<lparr>frac_m = Some 0, write_ptr = 3, delay = 3, line = [3, 0, 0, 0], max_size = 4\<rparr> - 1"
proof -
  have i: "Init \<lparr>frac_m = Some (1/2), write_ptr = 5, delay = 9, line = [], max_size = 0\<rparr> [7, 7, 7, 7] 4 =
     Some \<lparr>frac_m = Some (1/2), write_ptr = 0, delay = 1, line = [0, 0, 0, 0], max_size = 4\<rparr>"
  proof -
    have u: "unat (4 :: size_t) = 4"
      by simp
    have rp: "replicate 4 (0 :: real) = [0, 0, 0, 0]"
      by (simp add: numeral_eq_Suc)
    have "unat (4 :: size_t) \<le> length [7, 7, 7, 7 :: real]"
      by simp
    from Init_result[OF this] show ?thesis
      by (simp add: u rp)
  qed
  have m: "(1 :: size_t) < 4"
    by simp
  have ok: "\<forall>c\<in>set [Op_SetDelay 9, Op_Write 3, Op_Read]. delay_arg_ok c"
    by simp
  have r: "run \<lparr>frac_m = Some (1/2), write_ptr = 0, delay = 1, line = [0, 0, 0, 0], max_size = 4\<rparr>
     [Op_SetDelay 9, Op_Write 3, Op_Read] =
     Some \<lparr>frac_m = Some 0, write_ptr = 3, delay = 3, line = [3, 0, 0, 0], max_size = 4\<rparr>"
    by (simp add: Write_def SetDelay_def Read_def fetch_def)
  from invariants_reachable[OF i m ok r] i m r show ?thesis
    by simp
qed

text \<open>
  Claim C9 as stated fails for a capacity of 1: \<^verbatim>\<open>Init\<close> stores the delay 1 whatever the
  capacity is, and a \<^verbatim>\<open>Write\<close> later the stored delay 1 is still above
  \<open>max_size - 1 = 0\<close>.
\<close>

theorem invariants_capacity_one_counterexample:
  "Init \<lparr>frac_m = Some 0, write_ptr = 0, delay = 0, line = [], max_size = 0\<rparr> [7] 1 =
     Some \<lparr>frac_m = Some 0, write_ptr = 0, delay = 1, line = [0], max_size = 1\<rparr> \<and>
   run \<lparr>frac_m = Some 0, write_ptr = 0, delay = 1, line = [0], max_size = 1\<rparr> [Op_Write 3] =
     Some \<lparr>frac_m = Some 0, write_ptr = 0, delay = 1, line = [3], max_size = 1\<rparr> \<and>
   \<not> delay \<lparr>frac_m = Some 0, write_ptr = 0, delay = 1, line = [3], max_size = 1\<rparr> \<le>
       max_size \<lparr>frac_m = Some 0, write_ptr = 0, delay = 1, line = [3], max_size = 1\<rparr> - 1"
proof -
  have "Init \<lparr>frac_m = Some 0, write_ptr = 0, delay = 0, line = [], max_size = 0\<rparr> [7] 1 =
     Some \<lparr>frac_m = Some 0, write_ptr = 0, delay = 1, line = [0], max_size = 1\<rparr>"
    by (simp add: Init_result)
  moreover have "run \<lparr>frac_m = Some 0, write_ptr = 0, delay = 1, line = [0], max_size = 1\<rparr> [Op_Write 3] =
     Some \<lparr>frac_m = Some 0, write_ptr = 0, delay = 1, line = [3], max_size = 1\<rparr>"
    by (simp add: Write_def)
  ultimately show ?thesis
    by simp
qed

section \<open>Setting a negative delay\<close>

lemma uint_negative_int32:
  assumes "INT32_MIN \<le> i" and "i \<le> - 1"
  shows "uint (int32_to_size_t i) = i + 2 ^ 32"
proof -
  from assms have r: "0 \<le> i + 2 ^ 32" "i + 2 ^ 32 < 2 ^ 32"
    by (simp_all add: INT32_MIN_def)
  have "i mod 2 ^ 32 = (i + 2 ^ 32) mod 2 ^ 32"
    by simp
  also from r have "\<dots> = i + 2 ^ 32"
    by (rule mod_pos_pos_trivial)
  finally show ?thesis
    by (simp add: int32_to_size_t_def uint_word_of_int)
qed

lemma negative_int32_not_below:
  assumes v: "valid s" and i: "INT32_MIN \<le> i" "i \<le> - 1"
  shows "\<not> int32_to_size_t i < max_size s"
proof -
  from i have "2 ^ 31 \<le> uint (int32_to_size_t i)"
    by (simp add: uint_negative_int32 INT32_MIN_def)
  moreover from valid_uint(2)[OF v] have "uint (max_size s) < 2 ^ 31"
    by simp
  ultimately show ?thesis
    by (simp add: word_less_def)
qed

lemma trunc_negative:
  assumes "d \<le> - 1"
  shows "trunc d = \<lceil>d\<rceil>" and "trunc d \<le> - 1" and "d - real_of_int (trunc d) \<le> 0"
    and "- 1 < d - real_of_int (trunc d)"
proof -
  from assms show t: "trunc d = \<lceil>d\<rceil>"
    by (simp add: trunc_def)
  from assms have "\<lceil>d\<rceil> \<le> - 1"
    by (simp add: ceiling_le_iff)
  with t show "trunc d \<le> - 1"
    by simp
  show "d - real_of_int (trunc d) \<le> 0"
    unfolding t by (simp add: le_of_int_ceiling)
  have "real_of_int \<lceil>d\<rceil> < d + 1"
    by linarith
  then show "- 1 < d - real_of_int (trunc d)"
    unfolding t by simp
qed

text \<open>
  Claim C10, as amended. In a valid state, for every argument \<open>d \<le> -1\<close> whose integer
  part fits an \<^verbatim>\<open>int32_t\<close>, \<^verbatim>\<open>SetDelay(float d)\<close> returns and stores the delay
  \<open>max_size - 1\<close>: the negative integer part, converted to \<^verbatim>\<open>size_t\<close>, is at least
  \<open>2 ^ 31\<close> and so not below \<open>max_size\<close>. It stores the fraction \<open>d - trunc d\<close>, which is
  not positive, and changes nothing else: the array is not written.
\<close>

theorem SetDelay_float_negative:
  assumes "valid s" and "d \<le> - 1" and "INT32_MIN \<le> trunc d"
  shows "SetDelay_float s d =
           Some (s\<lparr>frac_m := Some (d - real_of_int (trunc d)), delay := max_size s - 1\<rparr>) \<and>
         d - real_of_int (trunc d) \<le> 0 \<and>
         line (s\<lparr>frac_m := Some (d - real_of_int (trunc d)), delay := max_size s - 1\<rparr>) = line s"
proof -
  note t = trunc_negative[OF assms(2)]
  from t(2) have "trunc d \<le> INT32_MAX"
    by (simp add: INT32_MAX_def)
  with assms(3) have c: "float_to_int32 d = Some (trunc d)"
    by (simp add: float_to_int32_def int32_def)
  from assms(1,3) t(2) have n: "\<not> int32_to_size_t (trunc d) < max_size s"
    by (rule negative_int32_not_below)
  have "SetDelay_float s d =
      Some (s\<lparr>frac_m := Some (d - real_of_int (trunc d)), delay := max_size s - 1\<rparr>)"
    by (simp only: SetDelay_float_def c Option.bind.bind_lunit n if_False)
  with t(3) show ?thesis
    by simp
qed

theorem SetDelay_float_negative_witness:
  "valid \<lparr>frac_m = Some 0, write_ptr = 1, delay = 1, line = [0, 0, 0, 0], max_size = 4\<rparr> \<and>
   (- (5/2) :: real) \<le> - 1 \<and> INT32_MIN \<le> trunc (- (5/2)) \<and>
   SetDelay_float \<lparr>frac_m = Some 0, write_ptr = 1, delay = 1, line = [0, 0, 0, 0], max_size = 4\<rparr> (- (5/2)) =
     Some \<lparr>frac_m = Some (- (1/2)), write_ptr = 1, delay = 3, line = [0, 0, 0, 0], max_size = 4\<rparr>"
proof -
  have v: "valid \<lparr>frac_m = Some 0, write_ptr = 1, delay = 1, line = [0, 0, 0, 0], max_size = 4\<rparr>"
    by (simp add: valid_def)
  have t: "trunc (- (5/2)) = - 2"
    by (simp add: trunc_def)
  have m: "INT32_MIN \<le> trunc (- (5/2))"
    by (simp add: t INT32_MIN_def)
  from SetDelay_float_negative[OF v _ m] show ?thesis
    using v m by (simp add: t)
qed

text \<open>
  Claim C10 as stated, for every strictly negative argument, fails between \<open>-1\<close> and 0:
  the integer part of \<open>-1/2\<close> is 0 (the cast truncates towards zero), 0 is below
  \<open>max_size = 4\<close>, and the stored delay is 0, not \<open>max_size - 1 = 3\<close>.
\<close>

theorem SetDelay_float_negative_counterexample:
  "SetDelay_float \<lparr>frac_m = Some 0, write_ptr = 1, delay = 1, line = [0, 0, 0, 0], max_size = 4\<rparr> (- (1/2)) =
     Some \<lparr>frac_m = Some (- (1/2)), write_ptr = 1, delay = 0, line = [0, 0, 0, 0], max_size = 4\<rparr> \<and>
   delay \<lparr>frac_m = Some (- (1/2)), write_ptr = 1, delay = 0, line = [0, 0, 0, 0], max_size = 4\<rparr> \<noteq>
     max_size \<lparr>frac_m = Some (- (1/2)), write_ptr = 1, delay = 0, line = [0, 0, 0, 0], max_size = 4\<rparr> - 1"
proof -
  have t: "trunc (- (1/2)) = 0"
    by (simp add: trunc_def ceiling_eq_iff)
  have c: "float_to_int32 (- (1/2)) = Some 0"
    by (simp add: float_to_int32_def t int32_def INT32_MIN_def INT32_MAX_def)
  show ?thesis
    by (simp add: SetDelay_float_def c int32_to_size_t_def)
qed

end
